theory Spec2Isabelle
  imports Complex_Main
begin

section \<open>Alerts as the feed delivers them\<close>

text \<open>
  The alert panel (\<^verbatim>\<open>frontend/src/components/AlertsPanel.jsx\<close>) receives alerts as JSON
  objects. Three of their fields decide the behaviour studied here:
  \<^item> \<^verbatim>\<open>id\<close>, a JSON number;
  \<^item> \<^verbatim>\<open>severity_level\<close>, a string, or absent or null (\<open>None\<close>): the code reads it
    through \<^verbatim>\<open>a.severity_level?.toLowerCase()\<close>;
  \<^item> \<^verbatim>\<open>created_at\<close>, kept here as the time value in milliseconds of
    \<^verbatim>\<open>new Date(a.created_at)\<close>, with \<open>None\<close> for an Invalid Date, whose time value
    is NaN.
\<close>

type_synonym alert_id = int

record alert =
  alert_id :: alert_id
  severity_level :: "string option"
  created_at :: "int option"

subsection \<open>Lower-casing\<close>

text \<open>
  \<^verbatim>\<open>String.prototype.toLowerCase\<close> on the ASCII letters; every other byte is kept. (Outside
  ASCII the only code point whose lower case is an ASCII letter is the Kelvin sign, which
  lower-cases to k, a letter none of the keys compared below contains.)
\<close>

definition lower_char :: "char \<Rightarrow> char" where
  "lower_char c =
     (case map_of (zip ''ABCDEFGHIJKLMNOPQRSTUVWXYZ'' ''abcdefghijklmnopqrstuvwxyz'') c of
        None \<Rightarrow> c
      | Some d \<Rightarrow> d)"

definition toLowerCase :: "string \<Rightarrow> string" where
  "toLowerCase s = map lower_char s"

section \<open>The feed sort\<close>

text \<open>
  \<^verbatim>\<open>
  const severityOrder = { 'critical': 0, 'high': 1, 'medium': 2, 'low': 3 };
  const severityA = severityOrder[a.severity_level?.toLowerCase()] ?? 4;
  \<close>
  A property read on an object literal finds the literal's own properties first and then
  those of \<^verbatim>\<open>Object.prototype\<close>. Of the inherited names only \<^verbatim>\<open>constructor\<close> and
  \<^verbatim>\<open>__proto__\<close> are free of upper-case letters, so only they can be the result of
  \<^verbatim>\<open>toLowerCase\<close>; the read then yields an object (the function \<^verbatim>\<open>Object\<close>, respectively
  \<^verbatim>\<open>Object.prototype\<close>), which is not nullish, so \<^verbatim>\<open>?? 4\<close> keeps it. Every other key
  reads as \<^verbatim>\<open>undefined\<close> (\<open>None\<close>), also the key \<^verbatim>\<open>undefined\<close> itself that a missing
  severity produces.
\<close>

datatype sev_value = SevNum int | SevObj string

definition severityOrder :: "string \<Rightarrow> sev_value option" where
  "severityOrder k =
     (if k = ''critical'' then Some (SevNum 0)
      else if k = ''high'' then Some (SevNum 1)
      else if k = ''medium'' then Some (SevNum 2)
      else if k = ''low'' then Some (SevNum 3)
      else if k = ''constructor'' \<or> k = ''__proto__'' then Some (SevObj k)
      else None)"

definition severityOf :: "alert \<Rightarrow> sev_value" where
  "severityOf a =
     (case severity_level a of
        None \<Rightarrow> SevNum 4
      | Some s \<Rightarrow> (case severityOrder (toLowerCase s) of None \<Rightarrow> SevNum 4 | Some v \<Rightarrow> v))"

text \<open>
  The comparator handed to \<^verbatim>\<open>Array.prototype.sort\<close>. Its result is a JavaScript number;
  \<open>None\<close> is NaN, which arises when an object is subtracted or an Invalid Date takes part.
  \<^verbatim>\<open>
  if (severityA !== severityB) { return severityA - severityB; }
  return new Date(b.created_at) - new Date(a.created_at);
  \<close>
\<close>

definition compareAlerts :: "alert \<Rightarrow> alert \<Rightarrow> int option" where
  "compareAlerts a b =
     (let severityA = severityOf a; severityB = severityOf b in
      if severityA \<noteq> severityB then
        (case (severityA, severityB) of
           (SevNum x, SevNum y) \<Rightarrow> Some (x - y)
         | _ \<Rightarrow> None)
      else
        (case (created_at b, created_at a) of
           (Some tb, Some ta) \<Rightarrow> Some (tb - ta)
         | _ \<Rightarrow> None))"

text \<open>
  \<^verbatim>\<open>Array.prototype.sort\<close> reads a NaN from the comparator as \<open>+0\<close> (SortCompare in
  ECMA-262) and is stable (ECMA-262 since 2019). Where the comparator is consistent on
  the elements of the array (a weak order on them), every stable sort computes the same
  array, so the insertion sort below stands for the engine's algorithm. That covers the
  arrays of regular alerts, and the arrays of two elements that compare as equal both
  ways, which stay as they are. On other arrays the standard leaves the order to the
  engine, and nothing is proved about them here.
\<close>

definition sortCompare :: "('a \<Rightarrow> 'a \<Rightarrow> int option) \<Rightarrow> 'a \<Rightarrow> 'a \<Rightarrow> int" where
  "sortCompare comparefn x y = (case comparefn x y of None \<Rightarrow> 0 | Some v \<Rightarrow> v)"

fun insert_by :: "('a \<Rightarrow> 'a \<Rightarrow> int) \<Rightarrow> 'a \<Rightarrow> 'a list \<Rightarrow> 'a list" where
  "insert_by cmp x [] = [x]"
| "insert_by cmp x (y # ys) = (if cmp x y \<le> 0 then x # y # ys else y # insert_by cmp x ys)"

definition array_sort :: "('a \<Rightarrow> 'a \<Rightarrow> int option) \<Rightarrow> 'a list \<Rightarrow> 'a list" where
  "array_sort comparefn xs = foldr (insert_by (sortCompare comparefn)) xs []"

text \<open>
  \<^verbatim>\<open>filterAlerts\<close>: the severity tab keeps the alerts whose lower-cased severity equals
  the lower-cased tab key (an alert without severity never matches), then the sort.
\<close>

definition matches_filter :: "string \<Rightarrow> alert \<Rightarrow> bool" where
  "matches_filter flt a =
     (case severity_level a of None \<Rightarrow> False | Some s \<Rightarrow> toLowerCase s = toLowerCase flt)"

definition filterAlerts :: "string \<Rightarrow> alert list \<Rightarrow> alert list" where
  "filterAlerts flt as =
     (let filtered = (if flt \<noteq> ''all'' then filter (matches_filter flt) as else as)
      in array_sort compareAlerts filtered)"

text \<open>
  The row colour of an alert, \<^verbatim>\<open>getSeverityColor\<close>: a \<^verbatim>\<open>switch\<close> on the lower-cased
  severity with a \<^verbatim>\<open>default\<close> branch for everything else.
\<close>

definition getSeverityColor :: "string option \<Rightarrow> string" where
  "getSeverityColor severity =
     (case map_option toLowerCase severity of
        None \<Rightarrow> ''bg-gray-50 text-gray-700 border-gray-200''
      | Some s \<Rightarrow>
          if s = ''critical'' then ''bg-red-100 text-red-800 border-red-200''
          else if s = ''high'' then ''bg-red-50 text-red-700 border-red-200''
          else if s = ''medium'' then ''bg-yellow-50 text-yellow-700 border-yellow-200''
          else if s = ''low'' then ''bg-green-50 text-green-700 border-green-200''
          else ''bg-gray-50 text-gray-700 border-gray-200'')"

subsection \<open>The order the sort is meant to establish\<close>

text \<open>
  An alert is regular when its severity reads as a number and its date is valid. On
  regular alerts \<open>feed_before a b\<close> says that \<open>a\<close> may stand before \<open>b\<close>: \<open>a\<close> has the
  smaller rank (the higher severity), or the same rank and is at least as recent.
  \<open>same_keys v t\<close> collects the alerts that tie on both sort keys, and \<open>tab_filter\<close> is the
  list \<^verbatim>\<open>filterAlerts\<close> sorts.
\<close>

definition regular :: "alert \<Rightarrow> bool" where
  "regular a = (case (severityOf a, created_at a) of (SevNum _, Some _) \<Rightarrow> True | _ \<Rightarrow> False)"

definition feed_before :: "alert \<Rightarrow> alert \<Rightarrow> bool" where
  "feed_before a b =
     (case (severityOf a, severityOf b, created_at a, created_at b) of
        (SevNum m, SevNum n, Some ta, Some tb) \<Rightarrow> m < n \<or> (m = n \<and> tb \<le> ta)
      | _ \<Rightarrow> False)"

definition same_keys :: "sev_value \<Rightarrow> int \<Rightarrow> alert \<Rightarrow> bool" where
  "same_keys v t a \<longleftrightarrow> severityOf a = v \<and> created_at a = Some t"

definition tab_filter :: "string \<Rightarrow> alert list \<Rightarrow> alert list" where
  "tab_filter flt xs = (if flt \<noteq> ''all'' then filter (matches_filter flt) xs else xs)"

subsection \<open>Example alerts\<close>

definition alert_1 :: alert where
  "alert_1 = \<lparr>alert_id = 1, severity_level = Some ''high'', created_at = Some 1000\<rparr>"

definition alert_2 :: alert where
  "alert_2 = \<lparr>alert_id = 2, severity_level = Some ''high'', created_at = Some 1000\<rparr>"

definition alert_3 :: alert where
  "alert_3 = \<lparr>alert_id = 3, severity_level = Some ''CRITICAL'', created_at = Some 500\<rparr>"

definition alert_4 :: alert where
  "alert_4 = \<lparr>alert_id = 4, severity_level = None, created_at = Some 2000\<rparr>"

definition alert_5 :: alert where
  "alert_5 = \<lparr>alert_id = 5, severity_level = Some ''Low'', created_at = Some 3000\<rparr>"

definition alert_6 :: alert where
  "alert_6 = \<lparr>alert_id = 6, severity_level = Some ''constructor'', created_at = Some 1000\<rparr>"

definition alert_7 :: alert where
  "alert_7 = \<lparr>alert_id = 7, severity_level = Some ''severe'', created_at = Some 4000\<rparr>"

section \<open>The panel's state and its operations\<close>

text \<open>
  The React state of the component (\<^verbatim>\<open>useState\<close>), the item \<^verbatim>\<open>readAlerts\<close> of the
  browser's local storage (\<open>None\<close> while the item does not exist), and the HTTP requests the
  component has issued. The item is written by \<^verbatim>\<open>markAsRead\<close> only, as the JSON text of an
  array of ids, so it is kept as the array it parses to.
\<close>

type_synonym location = "real \<times> real"

datatype http_request = GetAlerts "location option"

record panel_state =
  alerts :: "alert list"
  filteredAlerts :: "alert list"
  loading :: bool
  filter_key :: string
  unreadCount :: int
  error_msg :: "string option"
  readAlerts_item :: "alert_id list option"
  requests :: "http_request list"

definition initial_state :: "alert_id list option \<Rightarrow> panel_state" where
  "initial_state stored =
     \<lparr>alerts = [], filteredAlerts = [], loading = False, filter_key = ''all'',
      unreadCount = 0, error_msg = None, readAlerts_item = stored, requests = []\<rparr>"

text \<open>\<^verbatim>\<open>JSON.parse(localStorage.getItem('readAlerts') || '[]')\<close>\<close>

definition readAlerts :: "panel_state \<Rightarrow> alert_id list" where
  "readAlerts s = (case readAlerts_item s of None \<Rightarrow> [] | Some ids \<Rightarrow> ids)"

definition isAlertRead :: "panel_state \<Rightarrow> alert_id \<Rightarrow> bool" where
  "isAlertRead s alertId = (alertId \<in> set (readAlerts s))"

text \<open>
  \<^verbatim>\<open>
  const markAsRead = (alertId) => {
    const readAlerts = JSON.parse(localStorage.getItem('readAlerts') || '[]');
    if (!readAlerts.includes(alertId)) {
      readAlerts.push(alertId);
      localStorage.setItem('readAlerts', JSON.stringify(readAlerts));
      setUnreadCount(prev => Math.max(0, prev - 1));
    }
  };
  \<close>
\<close>

definition markAsRead :: "alert_id \<Rightarrow> panel_state \<Rightarrow> panel_state" where
  "markAsRead alertId s =
     (let ids = readAlerts s in
      if alertId \<notin> set ids then
        s\<lparr>readAlerts_item := Some (ids @ [alertId]),
          unreadCount := max 0 (unreadCount s - 1)\<rparr>
      else s)"

text \<open>The two effects that run when \<^verbatim>\<open>alerts\<close> (and, for the first, \<^verbatim>\<open>filter\<close>) changed.\<close>

definition effect_filter :: "panel_state \<Rightarrow> panel_state" where
  "effect_filter s = s\<lparr>filteredAlerts := filterAlerts (filter_key s) (alerts s)\<rparr>"

definition count_unread :: "panel_state \<Rightarrow> int" where
  "count_unread s = int (length (filter (\<lambda>a. \<not> isAlertRead s (alert_id a)) (alerts s)))"

definition effect_unread :: "panel_state \<Rightarrow> panel_state" where
  "effect_unread s = s\<lparr>unreadCount := count_unread s\<rparr>"

text \<open>
  \<^verbatim>\<open>fetchAlerts\<close>, from the call to the end of its \<^verbatim>\<open>finally\<close> block, followed by the
  effects its state change triggers. The server's answer is a parameter: a paginated
  object (\<^verbatim>\<open>response.data.results\<close>), a bare array (\<^verbatim>\<open>response.data\<close>), or a failure
  of the request, which the \<^verbatim>\<open>catch\<close> branch turns into the error text.
\<close>

datatype response = Paginated "alert list" | Bare "alert list" | Failure

definition setAlerts :: "alert list \<Rightarrow> panel_state \<Rightarrow> panel_state" where
  "setAlerts xs s = effect_unread (effect_filter (s\<lparr>alerts := xs\<rparr>))"

definition fetchAlerts :: "location option \<Rightarrow> response \<Rightarrow> panel_state \<Rightarrow> panel_state" where
  "fetchAlerts userLocation resp s =
     (let s1 = s\<lparr>loading := True, error_msg := None,
                 requests := requests s @ [GetAlerts userLocation]\<rparr>;
          s2 = (case resp of
                  Paginated results \<Rightarrow> setAlerts results s1
                | Bare data \<Rightarrow> setAlerts data s1
                | Failure \<Rightarrow> s1\<lparr>error_msg := Some ''Failed to load alerts. Please try again.''\<rparr>)
      in s2\<lparr>loading := False\<rparr>)"

definition setFilter :: "string \<Rightarrow> panel_state \<Rightarrow> panel_state" where
  "setFilter k s = effect_filter (s\<lparr>filter_key := k\<rparr>)"

text \<open>
  The only caller of \<^verbatim>\<open>markAsRead\<close> is the click handler of a rendered alert,
  \<^verbatim>\<open>onClick={() => markAsRead(alert.id)}\<close> inside \<^verbatim>\<open>filteredAlerts.map\<close>: a click on
  the \<open>k\<close>-th row. There is no row beyond the end of the list.
\<close>

definition clickAlert :: "nat \<Rightarrow> panel_state \<Rightarrow> panel_state" where
  "clickAlert k s =
     (if k < length (filteredAlerts s) then markAsRead (alert_id (filteredAlerts s ! k)) s
      else s)"

datatype event = Fetch response | Click nat | SelectFilter string

fun step :: "location option \<Rightarrow> panel_state \<Rightarrow> event \<Rightarrow> panel_state" where
  "step loc s (Fetch resp) = fetchAlerts loc resp s"
| "step loc s (Click k) = clickAlert k s"
| "step loc s (SelectFilter key) = setFilter key s"

definition run :: "location option \<Rightarrow> panel_state \<Rightarrow> event list \<Rightarrow> panel_state" where
  "run loc s es = foldl (step loc) s es"

subsection \<open>What the panel shows\<close>

text \<open>
  The content area of the rendered panel (the JSX after the filter tabs): the error box,
  the loading spinner, the empty state and the list are each shown under the condition
  written in the source. A hidden panel (\<^verbatim>\<open>!isVisible\<close>) renders nothing.
\<close>

record view =
  error_box :: "string option"
  spinner :: bool
  empty_state :: "(string \<times> string) option"
  alert_rows :: "alert list"
  badge :: "int option"

definition render :: "bool \<Rightarrow> panel_state \<Rightarrow> view option" where
  "render isVisible s =
     (if \<not> isVisible then None
      else Some
        \<lparr>error_box = error_msg s,
         spinner = (loading s \<and> alerts s = []),
         empty_state =
           (if \<not> loading s \<and> filteredAlerts s = [] \<and> error_msg s = None
            then Some (''No alerts found'',
                       if filter_key s = ''all'' then ''All clear!''
                       else ''No '' @ filter_key s @ '' alerts at the moment'')
            else None),
         alert_rows = filteredAlerts s,
         badge = (if unreadCount s > 0 then Some (unreadCount s) else None)\<rparr>)"

subsection \<open>Consistency of the unread badge\<close>

text \<open>
  The badge is consistent when it shows the number of fetched alerts that are not read.
  The invariant below adds what the click handler relies on: the rendered rows are fetched
  alerts, and the ids of the fetched alerts are pairwise distinct.
\<close>

definition panel_inv :: "panel_state \<Rightarrow> bool" where
  "panel_inv s \<longleftrightarrow>
     unreadCount s = count_unread s \<and> set (filteredAlerts s) \<subseteq> set (alerts s) \<and>
     distinct (map alert_id (alerts s))"

fun distinct_feed :: "event \<Rightarrow> bool" where
  "distinct_feed (Fetch (Paginated xs)) = distinct (map alert_id xs)"
| "distinct_feed (Fetch (Bare xs)) = distinct (map alert_id xs)"
| "distinct_feed _ = True"

subsection \<open>Other writers of the stored read set\<close>

text \<open>
  The navigation bar's logout handler runs \<^verbatim>\<open>localStorage.removeItem('readAlerts')\<close>.
\<close>

definition removeItem_readAlerts :: "panel_state \<Rightarrow> panel_state" where
  "removeItem_readAlerts s = s\<lparr>readAlerts_item := None\<rparr>"

text \<open>
  In its alerts view the application mounts two instances of the panel at once (the main
  column and the right column of \<^verbatim>\<open>App\<close>), each with its own React state, both
  reading and writing the same local-storage item. A click on a row of the main panel runs
  that panel's handler; the other panel sees the item the handler wrote.
\<close>

record page =
  main_panel :: panel_state
  side_panel :: panel_state

definition click_main :: "nat \<Rightarrow> page \<Rightarrow> page" where
  "click_main k pg =
     (let m = clickAlert k (main_panel pg)
      in \<lparr>main_panel = m,
          side_panel = (side_panel pg)\<lparr>readAlerts_item := readAlerts_item m\<rparr>\<rparr>)"

section \<open>The risk labels of the welcome card\<close>

text \<open>
  \<^verbatim>\<open>getRiskLevel\<close> and \<^verbatim>\<open>getRiskColor\<close> of the welcome card. The argument is the
  \<^verbatim>\<open>risk_score\<close> of a risk summary: a JSON number, taken as the real number it denotes
  (the comparisons with 8, 6 and 4 are exact on doubles), or \<open>None\<close> for null or a missing
  field. \<^verbatim>\<open>!risk\<close> holds for null and undefined (\<open>None\<close>) and for zero.
  \<^verbatim>\<open>
  const getRiskLevel = (risk) => {
    if (!risk) return 'Unknown';
    if (risk >= 8) return 'Very High';
    if (risk >= 6) return 'High';
    if (risk >= 4) return 'Moderate';
    return 'Low';
  };
  \<close>
\<close>

definition getRiskLevel :: "real option \<Rightarrow> string" where
  "getRiskLevel risk =
     (case risk of
        None \<Rightarrow> ''Unknown''
      | Some v \<Rightarrow>
          if v = 0 then ''Unknown''
          else if v \<ge> 8 then ''Very High''
          else if v \<ge> 6 then ''High''
          else if v \<ge> 4 then ''Moderate''
          else ''Low'')"

definition getRiskColor :: "real option \<Rightarrow> string" where
  "getRiskColor risk =
     (case risk of
        None \<Rightarrow> ''text-gray-500''
      | Some v \<Rightarrow>
          if v = 0 then ''text-gray-500''
          else if v \<ge> 8 then ''text-red-600''
          else if v \<ge> 6 then ''text-orange-500''
          else if v \<ge> 4 then ''text-yellow-500''
          else ''text-green-500'')"

text \<open>
  The tip under the card, a chain of conditional expressions:
  \<^verbatim>\<open>riskSummary && riskSummary.risk_score > 6\<close>, then
  \<^verbatim>\<open>riskSummary && riskSummary.risk_score < 3\<close>, then
  \<^verbatim>\<open>weatherData && weatherData.humidity > 80\<close>. The first argument is the score of
  the risk summary when there is one, the second the humidity of the weather data when
  there is some.
\<close>

datatype tip = HighDroughtRiskAlert | LowRiskConditions | HighHumidityToday

definition smartTip :: "real option \<Rightarrow> real option \<Rightarrow> tip option" where
  "smartTip riskSummary weatherData =
     (if (case riskSummary of None \<Rightarrow> False | Some risk_score \<Rightarrow> risk_score > 6)
      then Some HighDroughtRiskAlert
      else if (case riskSummary of None \<Rightarrow> False | Some risk_score \<Rightarrow> risk_score < 3)
      then Some LowRiskConditions
      else if (case weatherData of None \<Rightarrow> False | Some humidity \<Rightarrow> humidity > 80)
      then Some HighHumidityToday
      else None)"

section \<open>The distance shown beside an alert\<close>

text \<open>
  \<^verbatim>\<open>calculateDistance\<close> of the alert panel:
  \<^verbatim>\<open>
  const R = 6371; // Radius of the Earth in km
  const dLat = (lat2 - lat1) * Math.PI / 180;
  const dLon = (lon2 - lon1) * Math.PI / 180;
  const a =
    Math.sin(dLat/2) * Math.sin(dLat/2) +
    Math.cos(lat1 * Math.PI / 180) * Math.cos(lat2 * Math.PI / 180) *
    Math.sin(dLon/2) * Math.sin(dLon/2);
  const c = 2 * Math.atan2(Math.sqrt(a), Math.sqrt(1-a));
  return (R * c).toFixed(1);
  \<close>
  The source computes in IEEE doubles: every sum, difference, product and quotient is
  rounded, \<^verbatim>\<open>Math.PI\<close> is a double near \<open>pi\<close>, and the functions of \<^verbatim>\<open>Math\<close> return
  doubles near the values of the real functions. The arithmetic is therefore a parameter
  of the model: \<open>rnd\<close> rounds the exact result of an operation (and a decimal literal) to
  the number the machine keeps, and the other fields are the machine's constant and
  functions. A finite double is the real number it denotes; \<open>None\<close> is NaN, which this
  computation produces when a square root is taken of a negative number, as happens when
  rounding leaves \<open>a\<close> above 1.
\<close>

record arith =
  rnd :: "real \<Rightarrow> real"
  Math_PI :: real
  Math_sin :: "real \<Rightarrow> real"
  Math_cos :: "real \<Rightarrow> real"
  Math_sqrt :: "real \<Rightarrow> real"
  Math_atan2 :: "real \<Rightarrow> real \<Rightarrow> real"

definition fl_add :: "arith \<Rightarrow> real \<Rightarrow> real \<Rightarrow> real" where
  "fl_add M x y = rnd M (x + y)"

definition fl_sub :: "arith \<Rightarrow> real \<Rightarrow> real \<Rightarrow> real" where
  "fl_sub M x y = rnd M (x - y)"

definition fl_mul :: "arith \<Rightarrow> real \<Rightarrow> real \<Rightarrow> real" where
  "fl_mul M x y = rnd M (x * y)"

definition fl_div :: "arith \<Rightarrow> real \<Rightarrow> real \<Rightarrow> real" where
  "fl_div M x y = rnd M (x / y)"

definition js_sqrt :: "arith \<Rightarrow> real \<Rightarrow> real option" where
  "js_sqrt M x = (if x < 0 then None else Some (Math_sqrt M x))"

definition haversine_a :: "arith \<Rightarrow> real \<Rightarrow> real \<Rightarrow> real \<Rightarrow> real \<Rightarrow> real" where
  "haversine_a M lat1 lon1 lat2 lon2 =
     (let dLat = fl_div M (fl_mul M (fl_sub M lat2 lat1) (Math_PI M)) 180;
          dLon = fl_div M (fl_mul M (fl_sub M lon2 lon1) (Math_PI M)) 180;
          sLat = Math_sin M (fl_div M dLat 2);
          sLon = Math_sin M (fl_div M dLon 2);
          cos1 = Math_cos M (fl_div M (fl_mul M lat1 (Math_PI M)) 180);
          cos2 = Math_cos M (fl_div M (fl_mul M lat2 (Math_PI M)) 180)
      in fl_add M (fl_mul M sLat sLat) (fl_mul M (fl_mul M (fl_mul M cos1 cos2) sLon) sLon))"

definition calculateDistance_km :: "arith \<Rightarrow> real \<Rightarrow> real \<Rightarrow> real \<Rightarrow> real \<Rightarrow> real option" where
  "calculateDistance_km M lat1 lon1 lat2 lon2 =
     (let R = 6371;
          a = haversine_a M lat1 lon1 lat2 lon2
      in case (js_sqrt M a, js_sqrt M (fl_sub M 1 a)) of
           (Some y, Some x) \<Rightarrow> Some (fl_mul M R (fl_mul M 2 (Math_atan2 M y x)))
         | _ \<Rightarrow> None)"

text \<open>
  \<^verbatim>\<open>toFixed(1)\<close> prints the decimal with one fractional digit that is nearest to the
  number, the larger one of two equally near, with the sign of a negative number put in
  front. The result is kept as the number of tenths it denotes: 25 for \<^verbatim>\<open>"2.5"\<close>, and
  \<open>None\<close> for \<^verbatim>\<open>"NaN"\<close>.
\<close>

definition toFixed1 :: "real \<Rightarrow> int" where
  "toFixed1 x = (if x < 0 then - \<lfloor>- x * 10 + 1 / 2\<rfloor> else \<lfloor>x * 10 + 1 / 2\<rfloor>)"

definition calculateDistance :: "arith \<Rightarrow> real \<Rightarrow> real \<Rightarrow> real \<Rightarrow> real \<Rightarrow> int option" where
  "calculateDistance M lat1 lon1 lat2 lon2 =
     map_option toFixed1 (calculateDistance_km M lat1 lon1 lat2 lon2)"

text \<open>
  The real functions the machine approximates: \<^verbatim>\<open>Math.atan2(y, x)\<close> is the angle of the
  point \<open>(x, y)\<close>, in every quadrant. \<open>exact_arith\<close> is the arithmetic without rounding.
  An arithmetic is accurate to \<open>e\<close> when rounding has relative error at most \<open>e\<close> on the
  numbers between \<open>1 / 10 ^ 30\<close> and \<open>10 ^ 30\<close> in magnitude (where doubles neither underflow
  nor overflow), the square root has relative error at most \<open>e\<close>, and the constant and
  the other functions have absolute error at most \<open>e\<close>. IEEE double arithmetic with a
  correctly rounded square root and library functions good to ten decimal places is
  accurate to \<open>1 / 10 ^ 10\<close>. The two further arithmetics are examples that are accurate to
  \<open>1 / 10 ^ 10\<close> and not exact.
\<close>

definition atan2 :: "real \<Rightarrow> real \<Rightarrow> real" where
  "atan2 y x =
     (if 0 < x then arctan (y / x)
      else if x < 0 then (if 0 \<le> y then arctan (y / x) + pi else arctan (y / x) - pi)
      else if 0 < y then pi / 2
      else if y < 0 then - (pi / 2)
      else 0)"

definition exact_arith :: arith where
  "exact_arith =
     \<lparr>rnd = (\<lambda>x. x), Math_PI = pi, Math_sin = sin, Math_cos = cos, Math_sqrt = sqrt,
      Math_atan2 = atan2\<rparr>"

definition accurate :: "real \<Rightarrow> arith \<Rightarrow> bool" where
  "accurate e M \<longleftrightarrow>
     (\<forall>x. 1 / 10 ^ 30 \<le> \<bar>x\<bar> \<and> \<bar>x\<bar> \<le> 10 ^ 30 \<longrightarrow> \<bar>rnd M x - x\<bar> \<le> e * \<bar>x\<bar>) \<and>
     \<bar>Math_PI M - pi\<bar> \<le> e \<and>
     (\<forall>x. \<bar>Math_sin M x - sin x\<bar> \<le> e) \<and>
     (\<forall>x. \<bar>Math_cos M x - cos x\<bar> \<le> e) \<and>
     (\<forall>x. 0 \<le> x \<longrightarrow> \<bar>Math_sqrt M x - sqrt x\<bar> \<le> e * sqrt x) \<and>
     (\<forall>y x. \<bar>Math_atan2 M y x - atan2 y x\<bar> \<le> e)"

definition skewed_arith :: arith where
  "skewed_arith =
     \<lparr>rnd = (\<lambda>x. x + x / 10 ^ 11), Math_PI = pi - 1 / 10 ^ 11,
      Math_sin = (\<lambda>x. sin x + 1 / 10 ^ 11), Math_cos = (\<lambda>x. cos x - 1 / 10 ^ 11),
      Math_sqrt = (\<lambda>x. sqrt x - sqrt x / 10 ^ 11),
      Math_atan2 = (\<lambda>y x. atan2 y x + 1 / 10 ^ 11)\<rparr>"

definition sin_high_arith :: arith where
  "sin_high_arith = exact_arith\<lparr>Math_sin := (\<lambda>x. sin x + 1 / 10 ^ 11)\<rparr>"

text \<open>
  The haversine formula as the specification names it, for comparison with the code: the
  great-circle distance on a sphere of radius \<open>r\<close> between two points given by latitude
  and longitude in degrees is \<open>2 r arcsin (sqrt h)\<close>, where \<open>h\<close> is the haversine of the
  central angle.
\<close>

definition radians :: "real \<Rightarrow> real" where
  "radians deg = deg * pi / 180"

definition haversine_formula :: "real \<Rightarrow> real \<Rightarrow> real \<Rightarrow> real \<Rightarrow> real \<Rightarrow> real" where
  "haversine_formula r lat1 lon1 lat2 lon2 =
     2 * r * arcsin (sqrt ((sin ((radians lat2 - radians lat1) / 2))\<^sup>2 +
                          cos (radians lat1) * cos (radians lat2) *
                          (sin ((radians lon2 - radians lon1) / 2))\<^sup>2))"

subsection \<open>The relevance filter\<close>

text \<open>
  Modelled from the spec: the Geo-Relevance Filter (section 4.3), which is not among the
  sources; the panel only prints the distance. In the specification's words: an alert
  has a source point with a relevance radius and a region identifier, a subscriber has a
  location, which may be absent, and a declared region; a subscriber is relevant if the
  great-circle distance between the subscriber's location and the alert's source point
  is at most the alert's relevance radius, or if the declared region matches the alert's
  region identifier; a subscriber with no location is included if the alert has no radius
  constraint, or by the configuration flag that includes unlocated subscribers. The
  distance is the one the code computes, before \<^verbatim>\<open>toFixed\<close>; a distance that is NaN is
  within no radius.
\<close>

record subscriber =
  sub_location :: "location option"
  sub_region :: "string option"

record alert_scope =
  source_point :: location
  relevance_radius :: "real option"
  region_identifier :: "string option"

definition region_match :: "alert_scope \<Rightarrow> subscriber \<Rightarrow> bool" where
  "region_match A S =
     (case (sub_region S, region_identifier A) of (Some r, Some r') \<Rightarrow> r = r' | _ \<Rightarrow> False)"

definition within_radius :: "arith \<Rightarrow> alert_scope \<Rightarrow> location \<Rightarrow> bool" where
  "within_radius M A loc =
     (case relevance_radius A of
        None \<Rightarrow> False
      | Some r \<Rightarrow>
          (case calculateDistance_km M (fst loc) (snd loc) (fst (source_point A))
                  (snd (source_point A)) of
             None \<Rightarrow> False
           | Some d \<Rightarrow> d \<le> r))"

definition relevant :: "arith \<Rightarrow> bool \<Rightarrow> alert_scope \<Rightarrow> subscriber \<Rightarrow> bool" where
  "relevant M include_unlocated A S =
     (case sub_location S of
        Some loc \<Rightarrow> within_radius M A loc \<or> region_match A S
      | None \<Rightarrow> relevance_radius A = None \<or> include_unlocated \<or> region_match A S)"

definition relevant_set :: "arith \<Rightarrow> bool \<Rightarrow> alert_scope \<Rightarrow> subscriber list \<Rightarrow> subscriber list" where
  "relevant_set M include_unlocated A subs = filter (relevant M include_unlocated A) subs"

text \<open>
  The scenario of the specification: a subscriber at (-1.30, 36.80), an alert with source
  point (-1.29, 36.82) and a radius of 10 km, and no region on either side. The
  coordinates reach the code as the doubles nearest to the decimals.
\<close>

definition scenario_subscriber :: "arith \<Rightarrow> subscriber" where
  "scenario_subscriber M =
     \<lparr>sub_location = Some (rnd M (- 1.30), rnd M 36.80), sub_region = None\<rparr>"

definition scenario_alert :: "arith \<Rightarrow> alert_scope" where
  "scenario_alert M =
     \<lparr>source_point = (rnd M (- 1.29), rnd M 36.82), relevance_radius = Some 10,
      region_identifier = None\<rparr>"

section \<open>Read state\<close>

lemma readAlerts_markAsRead:
  "readAlerts (markAsRead i s) = (if i \<in> set (readAlerts s) then readAlerts s else readAlerts s @ [i])"
  by (simp add: markAsRead_def readAlerts_def Let_def)

lemma alerts_markAsRead: "alerts (markAsRead i s) = alerts s"
  by (simp add: markAsRead_def Let_def)

lemma isAlertRead_markAsRead:
  "isAlertRead (markAsRead i s) j \<longleftrightarrow> j = i \<or> isAlertRead s j"
  by (auto simp: isAlertRead_def readAlerts_markAsRead)

lemma markAsRead_read: "isAlertRead s i \<Longrightarrow> markAsRead i s = s"
  by (simp add: markAsRead_def isAlertRead_def Let_def)

lemma markAsRead_twice: "markAsRead i (markAsRead i s) = markAsRead i s"
  by (rule markAsRead_read) (simp add: isAlertRead_markAsRead)

lemma markAsRead_funpow: "(markAsRead i ^^ Suc n) s = markAsRead i s"
  by (induction n) (simp_all add: markAsRead_twice)

lemma readAlerts_setAlerts [simp]: "readAlerts (setAlerts xs s) = readAlerts s"
  by (simp add: setAlerts_def effect_unread_def effect_filter_def readAlerts_def)

lemma readAlerts_item_fetchAlerts: "readAlerts_item (fetchAlerts loc resp s) = readAlerts_item s"
  by (cases resp)
     (simp_all add: fetchAlerts_def setAlerts_def effect_unread_def effect_filter_def Let_def)

lemma readAlerts_item_setFilter: "readAlerts_item (setFilter k s) = readAlerts_item s"
  by (simp add: setFilter_def effect_filter_def)

lemma unreadCount_markAsRead_nonneg: "0 \<le> unreadCount s \<Longrightarrow> 0 \<le> unreadCount (markAsRead i s)"
  by (simp add: markAsRead_def Let_def)

lemma unreadCount_effect_unread_nonneg: "0 \<le> unreadCount (effect_unread s)"
  by (simp add: effect_unread_def count_unread_def)

lemma unreadCount_step_nonneg: "0 \<le> unreadCount s \<Longrightarrow> 0 \<le> unreadCount (step loc s e)"
proof (cases e)
  case (Fetch resp)
  assume "0 \<le> unreadCount s"
  then show ?thesis using Fetch
    by (cases resp)
       (simp_all add: fetchAlerts_def setAlerts_def Let_def unreadCount_effect_unread_nonneg)
next
  case (Click k)
  assume "0 \<le> unreadCount s"
  then show ?thesis using Click
    by (simp add: clickAlert_def unreadCount_markAsRead_nonneg)
next
  case (SelectFilter key)
  assume "0 \<le> unreadCount s"
  then show ?thesis using SelectFilter
    by (simp add: setFilter_def effect_filter_def)
qed

lemma unreadCount_run_nonneg: "0 \<le> unreadCount s \<Longrightarrow> 0 \<le> unreadCount (run loc s es)"
  unfolding run_def
  by (induction es arbitrary: s) (simp_all add: unreadCount_step_nonneg)

section \<open>Sorting keeps the elements\<close>

lemma set_insert_by: "set (insert_by cmp x ys) = insert x (set ys)"
  by (induction ys) auto

lemma set_array_sort: "set (array_sort comparefn xs) = set xs"
  unfolding array_sort_def
  by (induction xs) (simp_all add: set_insert_by)

lemma set_filterAlerts: "set (filterAlerts flt xs) \<subseteq> set xs"
  by (auto simp: filterAlerts_def Let_def set_array_sort)

section \<open>The unread count of a single panel\<close>

lemma length_filter_remove_key:
  "distinct (map f xs) \<Longrightarrow> x \<in> set xs \<Longrightarrow> P x \<Longrightarrow>
   length (filter (\<lambda>a. P a \<and> f a \<noteq> f x) xs) + 1 = length (filter P xs)"
proof (induction xs)
  case Nil
  then show ?case by simp
next
  case (Cons a xs)
  show ?case
  proof (cases "a = x")
    case True
    from Cons.prems(1) True have "f x \<notin> f ` set xs"
      by simp
    then have "\<forall>b\<in>set xs. f b \<noteq> f x"
      by (metis imageI)
    then have "filter (\<lambda>a. P a \<and> f a \<noteq> f x) xs = filter P xs"
      by (intro filter_cong) auto
    with True Cons.prems(3) show ?thesis by simp
  next
    case False
    with Cons.prems have x_in: "x \<in> set xs" and d: "distinct (map f xs)" and ne: "f a \<noteq> f x"
      by auto
    from Cons.IH [OF d x_in Cons.prems(3)] ne show ?thesis by simp
  qed
qed

lemma panel_inv_markAsRead:
  assumes inv: "panel_inv s" and mem: "a \<in> set (alerts s)"
  shows "panel_inv (markAsRead (alert_id a) s)"
proof (cases "alert_id a \<in> set (readAlerts s)")
  case True
  then show ?thesis using inv by (simp add: markAsRead_def Let_def)
next
  case False
  let ?P = "\<lambda>b. alert_id b \<notin> set (readAlerts s)"
  from inv have d: "distinct (map alert_id (alerts s))" and c: "unreadCount s = count_unread s"
    and sub: "set (filteredAlerts s) \<subseteq> set (alerts s)"
    by (simp_all add: panel_inv_def)
  have "length (filter (\<lambda>b. ?P b \<and> alert_id b \<noteq> alert_id a) (alerts s)) + 1
        = length (filter ?P (alerts s))"
    using d mem False by (rule length_filter_remove_key)
  moreover have "count_unread (markAsRead (alert_id a) s)
        = int (length (filter (\<lambda>b. ?P b \<and> alert_id b \<noteq> alert_id a) (alerts s)))"
    using False
    by (simp add: count_unread_def isAlertRead_def readAlerts_markAsRead alerts_markAsRead conj_commute)
  moreover have "unreadCount (markAsRead (alert_id a) s) = max 0 (unreadCount s - 1)"
    using False by (simp add: markAsRead_def Let_def)
  moreover have "unreadCount s = int (length (filter ?P (alerts s)))"
    using c by (simp add: count_unread_def isAlertRead_def)
  ultimately have "unreadCount (markAsRead (alert_id a) s) = count_unread (markAsRead (alert_id a) s)"
    by simp
  moreover have "alerts (markAsRead (alert_id a) s) = alerts s"
    "filteredAlerts (markAsRead (alert_id a) s) = filteredAlerts s"
    by (simp_all add: markAsRead_def Let_def)
  ultimately show ?thesis using d sub by (simp add: panel_inv_def)
qed

lemma panel_inv_clickAlert: "panel_inv s \<Longrightarrow> panel_inv (clickAlert k s)"
proof (cases "k < length (filteredAlerts s)")
  case True
  assume inv: "panel_inv s"
  then have "filteredAlerts s ! k \<in> set (alerts s)"
    using True by (auto simp: panel_inv_def)
  with inv have "panel_inv (markAsRead (alert_id (filteredAlerts s ! k)) s)"
    by (rule panel_inv_markAsRead)
  with True show ?thesis by (simp add: clickAlert_def)
next
  case False
  assume "panel_inv s"
  with False show ?thesis by (simp add: clickAlert_def)
qed

lemma panel_inv_setAlerts: "distinct (map alert_id xs) \<Longrightarrow> panel_inv (setAlerts xs s)"
  by (simp add: panel_inv_def setAlerts_def effect_unread_def effect_filter_def count_unread_def
      isAlertRead_def readAlerts_def set_filterAlerts)

lemma panel_inv_loading: "panel_inv s \<Longrightarrow> panel_inv (s\<lparr>loading := l\<rparr>)"
  by (simp add: panel_inv_def count_unread_def isAlertRead_def readAlerts_def)

lemma panel_inv_setFilter: "panel_inv s \<Longrightarrow> panel_inv (setFilter k s)"
  by (simp add: panel_inv_def setFilter_def effect_filter_def count_unread_def
      isAlertRead_def readAlerts_def set_filterAlerts)

lemma panel_inv_step: "panel_inv s \<Longrightarrow> distinct_feed e \<Longrightarrow> panel_inv (step loc s e)"
proof (cases e)
  case (Fetch resp)
  assume inv: "panel_inv s" and ok: "distinct_feed e"
  show ?thesis
  proof (cases resp)
    case (Paginated xs)
    with ok Fetch have "distinct (map alert_id xs)" by simp
    then show ?thesis using Fetch Paginated
      by (simp add: fetchAlerts_def Let_def panel_inv_setAlerts panel_inv_loading)
  next
    case (Bare xs)
    with ok Fetch have "distinct (map alert_id xs)" by simp
    then show ?thesis using Fetch Bare
      by (simp add: fetchAlerts_def Let_def panel_inv_setAlerts panel_inv_loading)
  next
    case Failure
    from inv show ?thesis using Fetch Failure
      by (simp add: fetchAlerts_def Let_def panel_inv_def count_unread_def isAlertRead_def
          readAlerts_def)
  qed
next
  case (Click k)
  assume "panel_inv s"
  then show ?thesis using Click by (simp add: panel_inv_clickAlert)
next
  case (SelectFilter key)
  assume "panel_inv s"
  then show ?thesis using SelectFilter by (simp add: panel_inv_setFilter)
qed

lemma panel_inv_run:
  "panel_inv s \<Longrightarrow> \<forall>e\<in>set es. distinct_feed e \<Longrightarrow> panel_inv (run loc s es)"
  unfolding run_def
  by (induction es arbitrary: s) (simp_all add: panel_inv_step)

lemma panel_inv_initial: "panel_inv (initial_state stored)"
  by (simp add: panel_inv_def initial_state_def count_unread_def)

lemma filterAlerts_Nil: "filterAlerts k [] = []"
  by (simp add: filterAlerts_def array_sort_def)

lemma readAlerts_item_fetches:
  "readAlerts_item (foldl (\<lambda>s (loc, resp). fetchAlerts loc resp s) s polls) = readAlerts_item s"
  by (induction polls arbitrary: s) (simp_all add: readAlerts_item_fetchAlerts split: prod.splits)

section \<open>The feed sort establishes its order\<close>

lemma regularE:
  assumes "regular a"
  obtains m t where "severityOf a = SevNum m" "created_at a = Some t"
  using assms by (auto simp: regular_def split: sev_value.splits option.splits)

lemma sortCompare_regular:
  assumes "regular a" "regular b"
  shows "sortCompare compareAlerts a b \<le> 0 \<longleftrightarrow> feed_before a b"
proof -
  from assms(1) obtain m ta where a: "severityOf a = SevNum m" "created_at a = Some ta"
    by (rule regularE)
  from assms(2) obtain n tb where b: "severityOf b = SevNum n" "created_at b = Some tb"
    by (rule regularE)
  show ?thesis
    by (auto simp: sortCompare_def compareAlerts_def feed_before_def a b)
qed

lemma feed_before_total: "regular a \<Longrightarrow> regular b \<Longrightarrow> \<not> feed_before a b \<Longrightarrow> feed_before b a"
  by (erule regularE, erule regularE) (auto simp: feed_before_def)

lemma feed_before_trans: "feed_before a b \<Longrightarrow> feed_before b c \<Longrightarrow> feed_before a c"
  by (auto simp: feed_before_def split: sev_value.splits option.splits)

lemma sorted_insert_by:
  assumes "regular x" "\<forall>y\<in>set ys. regular y" "sorted_wrt feed_before ys"
  shows "sorted_wrt feed_before (insert_by (sortCompare compareAlerts) x ys)"
  using assms
proof (induction ys)
  case Nil
  then show ?case by simp
next
  case (Cons y ys)
  show ?case
  proof (cases "sortCompare compareAlerts x y \<le> 0")
    case True
    with Cons.prems have xy: "feed_before x y"
      by (simp add: sortCompare_regular)
    with Cons.prems(3) have "\<forall>z\<in>set ys. feed_before x z"
      by (auto intro: feed_before_trans)
    with True xy Cons.prems(3) show ?thesis by simp
  next
    case False
    with Cons.prems have "\<not> feed_before x y"
      by (simp add: sortCompare_regular)
    with Cons.prems have yx: "feed_before y x"
      by (simp add: feed_before_total)
    from Cons.prems have "sorted_wrt feed_before (insert_by (sortCompare compareAlerts) x ys)"
      by (intro Cons.IH) simp_all
    with False yx Cons.prems(3) show ?thesis
      by (auto simp: set_insert_by)
  qed
qed

lemma sorted_array_sort:
  "\<forall>a\<in>set xs. regular a \<Longrightarrow> sorted_wrt feed_before (array_sort compareAlerts xs)"
proof (induction xs)
  case Nil
  then show ?case by (simp add: array_sort_def)
next
  case (Cons x xs)
  then have "sorted_wrt feed_before (array_sort compareAlerts xs)" by simp
  moreover from Cons.prems have "\<forall>y\<in>set (array_sort compareAlerts xs). regular y"
    by (simp add: set_array_sort)
  moreover from Cons.prems have "regular x" by simp
  ultimately have "sorted_wrt feed_before
      (insert_by (sortCompare compareAlerts) x (array_sort compareAlerts xs))"
    by (intro sorted_insert_by)
  then show ?case by (simp add: array_sort_def)
qed

text \<open>Stability: the elements on which the comparator ties keep their places.\<close>

lemma filter_insert_by:
  "(\<And>y. y \<in> set ys \<Longrightarrow> P x \<Longrightarrow> P y \<Longrightarrow> cmp x y \<le> 0) \<Longrightarrow>
   filter P (insert_by cmp x ys) = (if P x then x # filter P ys else filter P ys)"
  by (induction ys) auto

lemma filter_array_sort:
  "(\<And>x y. P x \<Longrightarrow> P y \<Longrightarrow> sortCompare cf x y \<le> 0) \<Longrightarrow>
   filter P (array_sort cf xs) = filter P xs"
  by (induction xs) (simp_all add: array_sort_def filter_insert_by)

lemma sortCompare_same_keys:
  "same_keys v t a \<Longrightarrow> same_keys v t b \<Longrightarrow> sortCompare compareAlerts a b = 0"
  by (simp add: same_keys_def sortCompare_def compareAlerts_def)

lemma filterAlerts_tab: "filterAlerts flt xs = array_sort compareAlerts (tab_filter flt xs)"
  by (simp add: filterAlerts_def tab_filter_def)

lemma sorted_filterAlerts:
  assumes "\<forall>a\<in>set xs. regular a"
  shows "sorted_wrt feed_before (filterAlerts flt xs)"
proof -
  from assms have "\<forall>a\<in>set (tab_filter flt xs). regular a"
    by (simp add: tab_filter_def)
  then show ?thesis
    unfolding filterAlerts_tab by (rule sorted_array_sort)
qed

lemma stable_filterAlerts:
  "filter (same_keys v t) (filterAlerts flt xs) = filter (same_keys v t) (tab_filter flt xs)"
  unfolding filterAlerts_tab
  by (rule filter_array_sort) (simp add: sortCompare_same_keys)

text \<open>The rank of a severity that is not a key of the lookup object.\<close>

lemma severityOf_missing: "severity_level a = None \<Longrightarrow> severityOf a = SevNum 4"
  by (simp add: severityOf_def)

lemma severityOf_unrecognized:
  assumes "severity_level a = Some s"
    and "toLowerCase s \<notin> {''critical'', ''high'', ''medium'', ''low'', ''constructor'', ''__proto__''}"
  shows "severityOf a = SevNum 4"
  using assms by (simp add: severityOf_def severityOrder_def)

lemma severityOf_recognized:
  assumes "severity_level a = Some s"
  shows "toLowerCase s = ''critical'' \<Longrightarrow> severityOf a = SevNum 0"
    and "toLowerCase s = ''high'' \<Longrightarrow> severityOf a = SevNum 1"
    and "toLowerCase s = ''medium'' \<Longrightarrow> severityOf a = SevNum 2"
    and "toLowerCase s = ''low'' \<Longrightarrow> severityOf a = SevNum 3"
  using assms by (simp_all add: severityOf_def severityOrder_def)

lemma rank_4_sorted_last:
  assumes reg: "\<forall>a\<in>set xs. regular a"
    and i: "i < length (filterAlerts flt xs)" and j: "j < length (filterAlerts flt xs)"
    and si: "severityOf (filterAlerts flt xs ! i) = SevNum 4"
    and sj: "severityOf (filterAlerts flt xs ! j) = SevNum n" and n: "n < 4"
  shows "j < i"
proof (rule ccontr)
  assume "\<not> j < i"
  then consider "i = j" | "i < j" by linarith
  then show False
  proof cases
    case 1
    with si sj n show False by simp
  next
    case 2
    from reg have "sorted_wrt feed_before (filterAlerts flt xs)"
      by (rule sorted_filterAlerts)
    with 2 j have "feed_before (filterAlerts flt xs ! i) (filterAlerts flt xs ! j)"
      by (simp add: sorted_wrt_iff_nth_less)
    with si sj n show False
      by (simp add: feed_before_def split: option.splits)
  qed
qed

section \<open>The claims about read state and the unread badge\<close>

text \<open>
  The badge of a single panel. From the panel's initial state, with any stored read set,
  after any sequence of fetches (successful or failed), clicks on rendered rows and changes
  of the severity tab, where every fetched list has pairwise distinct ids, the count in
  the badge is the number of fetched alerts that are not read: on its own, the decrement
  of \<^verbatim>\<open>markAsRead\<close> agrees with the recount.
\<close>

lemma unread_badge_consistent:
  "\<forall>e\<in>set es. distinct_feed e \<Longrightarrow>
   unreadCount (run loc (initial_state stored) es) = count_unread (run loc (initial_state stored) es)"
  using panel_inv_run [OF panel_inv_initial] by (simp add: panel_inv_def)

text \<open>
  Claim C3 says that the unread count shown equals the number of fetched alerts without
  read state after any interleaving of fetches and mark-read operations. The application
  breaks it in its own alerts view, where two panels are mounted: both fetch the feed with
  the one alert 1, a click on it in the main panel writes the shared read set and takes
  one off the main panel's badge only, and the side panel goes on showing 1 although its
  only alert is read and its own recount gives 0.
\<close>

theorem side_panel_badge_stale:
  "unreadCount (side_panel (click_main 0
      \<lparr>main_panel = fetchAlerts None (Bare [alert_1]) (initial_state None),
       side_panel = fetchAlerts None (Bare [alert_1]) (initial_state None)\<rparr>)) = 1 \<and>
   count_unread (side_panel (click_main 0
      \<lparr>main_panel = fetchAlerts None (Bare [alert_1]) (initial_state None),
       side_panel = fetchAlerts None (Bare [alert_1]) (initial_state None)\<rparr>)) = 0 \<and>
   unreadCount (main_panel (click_main 0
      \<lparr>main_panel = fetchAlerts None (Bare [alert_1]) (initial_state None),
       side_panel = fetchAlerts None (Bare [alert_1]) (initial_state None)\<rparr>)) = 0 \<and>
   count_unread (effect_unread (side_panel (click_main 0
      \<lparr>main_panel = fetchAlerts None (Bare [alert_1]) (initial_state None),
       side_panel = fetchAlerts None (Bare [alert_1]) (initial_state None)\<rparr>))) = 0"
  by code_simp

text \<open>
  Claim C4. Marking an alert read is idempotent: for every alert id and every state,
  marking it one or more times leaves exactly the state that marking it once leaves (the
  stored read set and the unread count with it). The transition is one-way: after any
  number of repeats the alert is read, and a mark never takes an id out of the read set.
\<close>

theorem markAsRead_idempotent:
  "(markAsRead i ^^ Suc n) s = markAsRead i s \<and>
   isAlertRead ((markAsRead i ^^ Suc n) s) i \<and>
   (isAlertRead (markAsRead i s) j \<longleftrightarrow> j = i \<or> isAlertRead s j)"
  by (simp only: markAsRead_funpow isAlertRead_markAsRead) simp

text \<open>
  Claim C5, as amended. The claim says that marking an alert read sends its id to a
  mark-read endpoint of the server, so that local storage is never the sole record. The
  panel has no such request: marking an alert read issues no HTTP request at all; the
  read state is written to the local-storage item only, and removing that item (as the
  logout handler does) makes the alert unread again.
\<close>

theorem markAsRead_local_only:
  "requests (markAsRead i s) = requests s \<and>
   isAlertRead (markAsRead i s) i \<and>
   \<not> isAlertRead (removeItem_readAlerts (markAsRead i s)) i"
  by (simp add: markAsRead_def Let_def isAlertRead_def readAlerts_def removeItem_readAlerts_def)

text \<open>
  Claim C5 as stated fails: after marking alert 7 read in a fresh panel no request has
  been sent, the id is in local storage only, and it is lost with the item.
\<close>

theorem markAsRead_sends_nothing_counterexample:
  "requests (markAsRead 7 (initial_state None)) = [] \<and>
   readAlerts_item (markAsRead 7 (initial_state None)) = Some [7] \<and>
   isAlertRead (markAsRead 7 (initial_state None)) 7 \<and>
   \<not> isAlertRead (removeItem_readAlerts (markAsRead 7 (initial_state None))) 7"
  by (simp add: markAsRead_def Let_def isAlertRead_def readAlerts_def removeItem_readAlerts_def
      initial_state_def)

text \<open>
  Claim C6. Fetching the feed does not touch read state: for every stored read set, one
  fetch, and any number of fetches one after the other, whatever the server answers, leave
  the stored read set as it was, so no alert becomes read by polling. Choosing a severity
  tab leaves it as well: of the panel's operations only marking an alert read writes it.
\<close>

theorem fetchAlerts_keeps_read_state:
  "readAlerts_item (fetchAlerts loc resp s) = readAlerts_item s \<and>
   readAlerts_item (foldl (\<lambda>s (loc, resp). fetchAlerts loc resp s) s polls) = readAlerts_item s \<and>
   isAlertRead (foldl (\<lambda>s (loc, resp). fetchAlerts loc resp s) s polls) i = isAlertRead s i \<and>
   readAlerts_item (setFilter k s) = readAlerts_item s"
  by (simp add: readAlerts_item_fetchAlerts readAlerts_item_fetches readAlerts_item_setFilter
      isAlertRead_def readAlerts_def)

text \<open>
  Claim C9. The unread count is never negative: from any state whose count is not
  negative, marking any alert read (the decrement clamped at zero), recomputing the count
  from the fetched alerts, and any sequence of fetches, clicks and tab changes leave a count
  that is not negative.
\<close>

theorem unreadCount_never_negative:
  "0 \<le> unreadCount s \<Longrightarrow>
   0 \<le> unreadCount (markAsRead i s) \<and> 0 \<le> unreadCount (effect_unread s) \<and>
   0 \<le> unreadCount (run loc s es)"
  by (simp add: unreadCount_markAsRead_nonneg unreadCount_effect_unread_nonneg
      unreadCount_run_nonneg)

theorem unreadCount_never_negative_witness:
  "0 \<le> unreadCount (initial_state None) \<and>
   0 \<le> unreadCount (markAsRead 1 (initial_state None)) \<and>
   0 \<le> unreadCount (effect_unread (initial_state None)) \<and>
   0 \<le> unreadCount (run None (initial_state None)
          [Fetch (Bare [alert_1, alert_2]), Click 0, Click 0, Click 1, Click 1])"
proof -
  have h: "0 \<le> unreadCount (initial_state None)"
    by (simp add: initial_state_def)
  show ?thesis
    using h unreadCount_never_negative [OF h, of 1 None
        "[Fetch (Bare [alert_1, alert_2]), Click 0, Click 0, Click 1, Click 1]"]
    by simp
qed

section \<open>The claim about a failed fetch\<close>

text \<open>
  Claim C7, as amended. The claim says that a failed fetch degrades to showing
  "no new alerts" rather than an error. The panel does the opposite: after a failed fetch
  it shows the error box with the text "Failed to load alerts. Please try again.", it
  does not show the empty state "No alerts found", and it keeps the rows of the last
  successful fetch. The failure is distinguishable from a feed that is empty: after a
  successful fetch of an empty feed the error is unset and the empty state is shown.
\<close>

theorem failed_fetch_shows_error:
  "map_option error_box (render True (fetchAlerts loc Failure s)) =
     Some (Some ''Failed to load alerts. Please try again.'') \<and>
   map_option empty_state (render True (fetchAlerts loc Failure s)) = Some None \<and>
   map_option alert_rows (render True (fetchAlerts loc Failure s)) = Some (filteredAlerts s) \<and>
   alerts (fetchAlerts loc Failure s) = alerts s \<and>
   error_msg (fetchAlerts loc Failure s) \<noteq> error_msg (fetchAlerts loc (Bare []) s) \<and>
   map_option error_box (render True (fetchAlerts loc (Bare []) s)) = Some None \<and>
   map_option empty_state (render True (fetchAlerts loc (Bare []) s)) =
     Some (Some (''No alerts found'',
                 if filter_key s = ''all'' then ''All clear!''
                 else ''No '' @ filter_key s @ '' alerts at the moment''))"
  by (simp add: render_def fetchAlerts_def Let_def setAlerts_def effect_unread_def
      effect_filter_def filterAlerts_Nil)

text \<open>
  Claim C7 as stated fails: a fresh panel whose first fetch fails shows the error box and
  no empty state.
\<close>

theorem failed_fetch_counterexample:
  "render True (fetchAlerts None Failure (initial_state None)) =
     Some \<lparr>error_box = Some ''Failed to load alerts. Please try again.'', spinner = False,
           empty_state = None, alert_rows = [], badge = None\<rparr>"
  by (simp add: render_def fetchAlerts_def initial_state_def Let_def)

section \<open>The claim about the risk labels\<close>

lemma getRiskLevel_thresholds:
  "v \<noteq> 0 \<Longrightarrow>
   getRiskLevel (Some v) =
     (if 8 \<le> v then ''Very High'' else if 6 \<le> v then ''High''
      else if 4 \<le> v then ''Moderate'' else ''Low'')"
  by (simp add: getRiskLevel_def)

lemma getRiskColor_thresholds:
  "v \<noteq> 0 \<Longrightarrow>
   getRiskColor (Some v) =
     (if 8 \<le> v then ''text-red-600'' else if 6 \<le> v then ''text-orange-500''
      else if 4 \<le> v then ''text-yellow-500'' else ''text-green-500'')"
  by (simp add: getRiskColor_def)

lemma getRiskLevel_boundaries:
  "getRiskLevel (Some 8) = ''Very High'' \<and> getRiskLevel (Some 6) = ''High'' \<and>
   getRiskLevel (Some 4) = ''Moderate''"
  by (simp add: getRiskLevel_def)

text \<open>
  Claim C2 says that every value below 4, the value 0 included, is classified as low. On
  every value other than 0 the labels follow the thresholds, with a boundary value taking
  the higher label (the three lemmas above). At 0 the guard \<^verbatim>\<open>!risk\<close>, which is there
  for a missing score, fires as well: the card labels the score 0 as Unknown, in grey,
  while the tip under the same card, which compares the same score with 3, announces low
  risk conditions.
\<close>

theorem getRiskLevel_zero:
  "getRiskLevel (Some 0) = ''Unknown'' \<and> getRiskColor (Some 0) = ''text-gray-500'' \<and>
   smartTip (Some 0) weatherData = Some LowRiskConditions"
  by (simp add: getRiskLevel_def getRiskColor_def smartTip_def)

section \<open>The claims about the feed order\<close>

text \<open>
  Claim C1, as amended. The claim says that the feed order is total, with the alert id
  breaking a tie on severity and created-at. The comparator never reads the id. What
  holds, for a feed whose alerts all have a valid created-at and a severity that reads as
  a rank: of any two alerts returned, the one with the higher severity stands first, and
  of two with the same severity the more recent stands first; alerts that tie on both keys
  are returned in the order in which the server listed them, whatever their ids.
\<close>

theorem feed_order:
  "\<forall>a\<in>set xs. regular a \<Longrightarrow>
   sorted_wrt feed_before (filterAlerts flt xs) \<and>
   filter (same_keys v t) (filterAlerts flt xs) = filter (same_keys v t) (tab_filter flt xs)"
  by (simp add: sorted_filterAlerts stable_filterAlerts)

theorem feed_order_witness:
  "regular alert_4 \<and> regular alert_2 \<and> regular alert_5 \<and> regular alert_1 \<and> regular alert_3 \<and>
   regular alert_7 \<and>
   filterAlerts ''all'' [alert_4, alert_2, alert_5, alert_1, alert_3, alert_7] =
     [alert_3, alert_2, alert_1, alert_5, alert_7, alert_4] \<and>
   sorted_wrt feed_before [alert_3, alert_2, alert_1, alert_5, alert_7, alert_4] \<and>
   filter (same_keys (SevNum 1) 1000) [alert_3, alert_2, alert_1, alert_5, alert_7, alert_4] =
     [alert_2, alert_1]"
proof -
  have r: "regular alert_4 \<and> regular alert_2 \<and> regular alert_5 \<and> regular alert_1 \<and>
      regular alert_3 \<and> regular alert_7"
    by code_simp
  then have h: "\<forall>a\<in>set [alert_4, alert_2, alert_5, alert_1, alert_3, alert_7]. regular a"
    by simp
  have e: "filterAlerts ''all'' [alert_4, alert_2, alert_5, alert_1, alert_3, alert_7] =
     [alert_3, alert_2, alert_1, alert_5, alert_7, alert_4]"
    by code_simp
  have t: "tab_filter ''all'' [alert_4, alert_2, alert_5, alert_1, alert_3, alert_7] =
     [alert_4, alert_2, alert_5, alert_1, alert_3, alert_7]"
    by (simp add: tab_filter_def)
  have f: "filter (same_keys (SevNum 1) 1000) [alert_4, alert_2, alert_5, alert_1, alert_3, alert_7] =
     [alert_2, alert_1]"
    by code_simp
  show ?thesis
    using r feed_order [OF h, of "''all''" "SevNum 1" 1000]
    unfolding e t f by simp
qed

text \<open>
  Claim C1 as stated fails: two alerts with different ids, the same severity and the same
  created-at compare as equal in both directions, and the feed returns them in whichever
  order it received them.
\<close>

theorem feed_tie_counterexample:
  "alert_id alert_1 \<noteq> alert_id alert_2 \<and>
   sortCompare compareAlerts alert_1 alert_2 = 0 \<and>
   sortCompare compareAlerts alert_2 alert_1 = 0 \<and>
   filterAlerts ''all'' [alert_1, alert_2] = [alert_1, alert_2] \<and>
   filterAlerts ''all'' [alert_2, alert_1] = [alert_2, alert_1]"
  by code_simp

text \<open>
  Claim C10 says that an alert whose severity is missing or is not one of critical, high,
  medium and low gets rank 4 and is sorted after every alert with a recognised severity.
  That holds for a missing severity and for every string that does not lower-case to a
  property name the lookup object inherits (lemmas \<open>severityOf_missing\<close>,
  \<open>severityOf_unrecognized\<close> and \<open>rank_4_sorted_last\<close>). The severity
  \<^verbatim>\<open>constructor\<close> is not given rank 4: the lookup finds the inherited member, the
  comparison with a rank is NaN, and the alert stays where the feed had it, in front of
  a critical alert when it was listed first. The row
  colour of the same alert, chosen by a \<^verbatim>\<open>switch\<close>, is the default one of an
  unrecognised severity.
\<close>

theorem inherited_key_not_rank_4:
  "severityOf alert_6 = SevObj ''constructor'' \<and>
   compareAlerts alert_6 alert_3 = None \<and>
   filterAlerts ''all'' [alert_6, alert_3] = [alert_6, alert_3] \<and>
   filterAlerts ''all'' [alert_3, alert_6] = [alert_3, alert_6] \<and>
   severityOf alert_3 = SevNum 0 \<and>
   getSeverityColor (severity_level alert_6) = ''bg-gray-50 text-gray-700 border-gray-200''"
  by code_simp

section \<open>The distance computation is the haversine formula\<close>

text \<open>Without rounding the computation is the formula, for all arguments.\<close>

lemma haversine_range:
  fixes p q v :: real
  shows "0 \<le> (sin ((q - p) / 2))\<^sup>2 + cos p * cos q * (sin v)\<^sup>2"
    and "(sin ((q - p) / 2))\<^sup>2 + cos p * cos q * (sin v)\<^sup>2 \<le> 1"
proof -
  define s where "s = (sin v)\<^sup>2"
  define D where "D = cos (p - q)"
  define S where "S = cos (p + q)"
  have s: "0 \<le> s" "s \<le> 1"
    by (simp_all add: s_def abs_square_le_1)
  have D: "- 1 \<le> D" "D \<le> 1" and S: "- 1 \<le> S" "S \<le> 1"
    by (simp_all add: D_def S_def)
  have tw: "2 * ((q - p) / 2) = q - p"
    by simp
  have "cos (q - p) = 1 - 2 * (sin ((q - p) / 2))\<^sup>2"
    using cos_double_sin [of "(q - p) / 2"] unfolding tw .
  moreover have "cos (q - p) = D"
    unfolding D_def using cos_minus [of "p - q"] by simp
  ultimately have h: "(sin ((q - p) / 2))\<^sup>2 = (1 - D) / 2"
    by simp
  have c: "cos p * cos q = (D + S) / 2"
    by (simp add: D_def S_def cos_times_cos)
  define u where "u = D * (1 - s)"
  define w where "w = S * s"
  have e: "(sin ((q - p) / 2))\<^sup>2 + cos p * cos q * (sin v)\<^sup>2 = 1 / 2 - u / 2 + w / 2"
    unfolding h c s_def [symmetric] u_def w_def by (simp add: field_simps)
  have "D * (1 - s) \<le> 1 * (1 - s)" and "(- 1) * (1 - s) \<le> D * (1 - s)"
    using D s by (intro mult_right_mono; simp)+
  then have u: "u \<le> 1 - s" "s - 1 \<le> u"
    by (simp_all add: u_def)
  have "S * s \<le> 1 * s" and "(- 1) * s \<le> S * s"
    using S s by (intro mult_right_mono; simp)+
  then have w: "w \<le> s" "- s \<le> w"
    by (simp_all add: w_def)
  show "0 \<le> (sin ((q - p) / 2))\<^sup>2 + cos p * cos q * (sin v)\<^sup>2"
    unfolding e using u w by linarith
  show "(sin ((q - p) / 2))\<^sup>2 + cos p * cos q * (sin v)\<^sup>2 \<le> 1"
    unfolding e using u w by linarith
qed

lemma atan2_sqrt:
  assumes "0 \<le> a" "a \<le> 1"
  shows "atan2 (sqrt a) (sqrt (1 - a)) = arcsin (sqrt a)"
proof (cases "a = 1")
  case True
  then show ?thesis by (simp add: atan2_def)
next
  case False
  with assms have lt: "a < 1" by simp
  then have pos: "0 < sqrt (1 - a)" by simp
  have "- 1 < sqrt a" using assms(1)
    by (meson less_le_trans neg_less_0_iff_less real_sqrt_ge_zero zero_less_one)
  moreover have "sqrt a < 1" using lt by simp
  ultimately have "arcsin (sqrt a) = arctan (sqrt a / sqrt (1 - (sqrt a)\<^sup>2))"
    by (rule arcsin_arctan)
  also have "(sqrt a)\<^sup>2 = a" using assms(1) by simp
  finally show ?thesis using pos by (simp add: atan2_def)
qed

lemma haversine_a_exact:
  "haversine_a exact_arith lat1 lon1 lat2 lon2 =
     (sin ((radians lat2 - radians lat1) / 2))\<^sup>2 +
     cos (radians lat1) * cos (radians lat2) * (sin ((radians lon2 - radians lon1) / 2))\<^sup>2"
  by (simp add: haversine_a_def exact_arith_def fl_add_def fl_sub_def fl_mul_def fl_div_def
      radians_def Let_def power2_eq_square algebra_simps diff_divide_distrib)

lemma haversine_a_exact_range:
  "0 \<le> haversine_a exact_arith lat1 lon1 lat2 lon2"
  "haversine_a exact_arith lat1 lon1 lat2 lon2 \<le> 1"
  unfolding haversine_a_exact by (rule haversine_range)+

lemma calculateDistance_km_exact:
  "calculateDistance_km exact_arith lat1 lon1 lat2 lon2 =
     Some (haversine_formula 6371 lat1 lon1 lat2 lon2)"
proof -
  define a where "a = haversine_a exact_arith lat1 lon1 lat2 lon2"
  have r: "0 \<le> a" "a \<le> 1"
    unfolding a_def by (rule haversine_a_exact_range)+
  have "calculateDistance_km exact_arith lat1 lon1 lat2 lon2 =
      Some (6371 * (2 * atan2 (sqrt a) (sqrt (1 - a))))"
    unfolding calculateDistance_km_def Let_def a_def [symmetric]
    using r by (simp add: js_sqrt_def fl_sub_def fl_mul_def exact_arith_def)
  also have "atan2 (sqrt a) (sqrt (1 - a)) = arcsin (sqrt a)"
    using r by (rule atan2_sqrt)
  finally show ?thesis
    by (simp add: haversine_formula_def a_def haversine_a_exact)
qed

section \<open>Bounds on the elementary functions\<close>

text \<open>
  Elementary bounds on the arc tangent, the sine and the cosine near zero, and the bounds
  on \<open>pi\<close> that Machin's formula gives with them.
\<close>

lemma arctan_le_self:
  assumes "0 \<le> (x::real)"
  shows "arctan x \<le> x"
proof -
  have "(\<lambda>t. t - arctan t) 0 \<le> (\<lambda>t. t - arctan t) x"
  proof (rule DERIV_nonneg_imp_nondecreasing [OF assms])
    fix t :: real
    have "((\<lambda>t. t - arctan t) has_real_derivative (1 - inverse (1 + t\<^sup>2))) (at t)"
      by (auto intro!: derivative_eq_intros)
    moreover have "inverse (1 + t\<^sup>2) \<le> 1"
      by (simp add: inverse_le_1_iff)
    ultimately show "\<exists>y. ((\<lambda>t. t - arctan t) has_real_derivative y) (at t) \<and> 0 \<le> y"
      by (intro exI [of _ "1 - inverse (1 + t\<^sup>2)"]) simp
  qed
  then show ?thesis by simp
qed

lemma arctan_lower:
  assumes "0 \<le> (x::real)"
  shows "x - x ^ 3 / 3 \<le> arctan x"
proof -
  have "(\<lambda>t. arctan t - t + t ^ 3 / 3) 0 \<le> (\<lambda>t. arctan t - t + t ^ 3 / 3) x"
  proof (rule DERIV_nonneg_imp_nondecreasing [OF assms])
    fix t :: real
    have "((\<lambda>t. arctan t - t + t ^ 3 / 3) has_real_derivative
           (inverse (1 + t\<^sup>2) - 1 + t\<^sup>2)) (at t)"
      by (auto intro!: derivative_eq_intros)
    moreover have "inverse (1 + t\<^sup>2) - 1 + t\<^sup>2 = t ^ 4 / (1 + t\<^sup>2)"
    proof -
      have "1 + t\<^sup>2 \<noteq> 0"
        by (metis add.commute power2_less_0 sum_power2_eq_zero_iff zero_neq_one one_power2)
      then show ?thesis
        by (simp add: field_simps power2_eq_square power4_eq_xxxx)
    qed
    moreover have "0 \<le> t ^ 4 / (1 + t\<^sup>2)"
      by (intro divide_nonneg_nonneg) (simp_all add: add_nonneg_nonneg)
    ultimately show "\<exists>y. ((\<lambda>t. arctan t - t + t ^ 3 / 3) has_real_derivative y) (at t) \<and> 0 \<le> y"
      by (intro exI [of _ "inverse (1 + t\<^sup>2) - 1 + t\<^sup>2"]) simp
  qed
  then show ?thesis by simp
qed

lemma cos_lower: "1 - x\<^sup>2 / 2 \<le> cos (x::real)"
proof -
  have tw: "2 * (x / 2) = x"
    by simp
  have c: "cos x = 1 - 2 * (sin (x / 2))\<^sup>2"
    using cos_double_sin [of "x / 2"] unfolding tw .
  have "\<bar>sin (x / 2)\<bar> \<le> \<bar>x / 2\<bar>"
    by (rule abs_sin_x_le_abs_x)
  then have "(sin (x / 2))\<^sup>2 \<le> (x / 2)\<^sup>2"
    by (simp only: abs_le_square_iff)
  then show ?thesis
    unfolding c by (simp add: power2_eq_square)
qed

lemma sin_lower:
  assumes "0 \<le> (x::real)"
  shows "x - x ^ 3 / 6 \<le> sin x"
proof -
  have "(\<lambda>t. sin t - t + t ^ 3 / 6) 0 \<le> (\<lambda>t. sin t - t + t ^ 3 / 6) x"
  proof (rule DERIV_nonneg_imp_nondecreasing [OF assms])
    fix t :: real
    have "((\<lambda>t. sin t - t + t ^ 3 / 6) has_real_derivative (cos t - 1 + t\<^sup>2 / 2)) (at t)"
      by (auto intro!: derivative_eq_intros)
    moreover have "0 \<le> cos t - 1 + t\<^sup>2 / 2"
      using cos_lower [of t] by simp
    ultimately show "\<exists>y. ((\<lambda>t. sin t - t + t ^ 3 / 6) has_real_derivative y) (at t) \<and> 0 \<le> y"
      by blast
  qed
  then show ?thesis by simp
qed

lemma pi_bounds: "31405 / 10000 \<le> pi" "pi \<le> 3184 / 1000"
proof -
  define A where "A = arctan (1 / 5)"
  define B where "B = arctan (1 / 239)"
  have m: "pi = 16 * A - 4 * B"
    using machin by (simp add: A_def B_def)
  have "arctan (1 / 5) \<le> 1 / 5"
    by (rule arctan_le_self) simp
  then have uA: "A \<le> 1 / 5"
    by (simp add: A_def)
  have "(1 / 5) - (1 / 5) ^ 3 / 3 \<le> arctan (1 / 5 :: real)"
    by (rule arctan_lower) simp
  then have lA: "74 / 375 \<le> A"
    by (simp add: A_def power3_eq_cube)
  have "arctan (1 / 239) \<le> 1 / 239"
    by (rule arctan_le_self) simp
  then have uB: "B \<le> 1 / 239"
    by (simp add: B_def)
  have "(1 / 239) - (1 / 239) ^ 3 / 3 \<le> arctan (1 / 239 :: real)"
    by (rule arctan_lower) simp
  then have lB: "41 / 10000 \<le> B"
    by (simp add: B_def power3_eq_cube)
  show "31405 / 10000 \<le> pi"
    unfolding m using lA uB by linarith
  show "pi \<le> 3184 / 1000"
    unfolding m using uA lB by linarith
qed

section \<open>Interval arithmetic under rounding\<close>

text \<open>
  Each lemma takes an interval that holds the arguments of one operation and gives an
  interval that holds the rounded result in every arithmetic accurate to \<open>1 / 10 ^ 10\<close>.
\<close>

lemma accurate_exact: "0 \<le> e \<Longrightarrow> accurate e exact_arith"
  by (simp add: accurate_def exact_arith_def)

lemma accurate_skewed: "accurate (1 / 10 ^ 10) skewed_arith"
  by (simp add: accurate_def skewed_arith_def abs_mult)

lemma abs_le_D: "\<bar>a - b\<bar> \<le> c \<Longrightarrow> b - c \<le> a \<and> a \<le> b + (c::real)"
  by linarith

lemma rnd_in:
  assumes acc: "accurate (1 / 10 ^ 10) M" and iv: "l \<le> x \<and> x \<le> h"
    and r: "1 / 10 ^ 30 \<le> l" "h \<le> 10 ^ 30"
    and w: "l' \<le> l * (1 - 1 / 10 ^ 10)" "h * (1 + 1 / 10 ^ 10) \<le> h'"
  shows "l' \<le> rnd M x \<and> rnd M x \<le> h'"
proof -
  have "(0::real) < 1 / 10 ^ 30"
    by simp
  with r(1) iv have x0: "0 < x"
    by linarith
  have "1 / 10 ^ 30 \<le> \<bar>x\<bar> \<and> \<bar>x\<bar> \<le> 10 ^ 30"
    using x0 iv r by simp
  with acc have "\<bar>rnd M x - x\<bar> \<le> 1 / 10 ^ 10 * \<bar>x\<bar>"
    unfolding accurate_def by blast
  moreover have "\<bar>x\<bar> = x"
    using x0 by simp
  ultimately have "\<bar>rnd M x - x\<bar> \<le> 1 / 10 ^ 10 * x"
    by simp
  then have "x - 1 / 10 ^ 10 * x \<le> rnd M x \<and> rnd M x \<le> x + 1 / 10 ^ 10 * x"
    by (rule abs_le_D)
  then have n: "x * (1 - 1 / 10 ^ 10) \<le> rnd M x" "rnd M x \<le> x * (1 + 1 / 10 ^ 10)"
    by (simp_all add: algebra_simps)
  have "l * (1 - 1 / 10 ^ 10) \<le> x * (1 - 1 / 10 ^ 10)"
    using iv by (intro mult_right_mono) simp_all
  moreover have "x * (1 + 1 / 10 ^ 10) \<le> h * (1 + 1 / 10 ^ 10)"
    using iv by (intro mult_right_mono) simp_all
  ultimately show ?thesis
    using n w by linarith
qed

lemma rnd_abs_in:
  assumes acc: "accurate (1 / 10 ^ 10) M" and iv: "l \<le> \<bar>x\<bar> \<and> \<bar>x\<bar> \<le> h"
    and r: "1 / 10 ^ 30 \<le> l" "h \<le> 10 ^ 30"
    and w: "l' \<le> l * (1 - 1 / 10 ^ 10)" "h * (1 + 1 / 10 ^ 10) \<le> h'"
  shows "l' \<le> \<bar>rnd M x\<bar> \<and> \<bar>rnd M x\<bar> \<le> h'"
proof -
  have "1 / 10 ^ 30 \<le> \<bar>x\<bar> \<and> \<bar>x\<bar> \<le> 10 ^ 30"
    using iv r by linarith
  with acc have "\<bar>rnd M x - x\<bar> \<le> 1 / 10 ^ 10 * \<bar>x\<bar>"
    unfolding accurate_def by blast
  moreover have "\<bar>\<bar>rnd M x\<bar> - \<bar>x\<bar>\<bar> \<le> \<bar>rnd M x - x\<bar>"
    by (rule abs_triangle_ineq3)
  ultimately have "\<bar>\<bar>rnd M x\<bar> - \<bar>x\<bar>\<bar> \<le> 1 / 10 ^ 10 * \<bar>x\<bar>"
    by linarith
  then have "\<bar>x\<bar> - 1 / 10 ^ 10 * \<bar>x\<bar> \<le> \<bar>rnd M x\<bar> \<and> \<bar>rnd M x\<bar> \<le> \<bar>x\<bar> + 1 / 10 ^ 10 * \<bar>x\<bar>"
    by (rule abs_le_D)
  then have n: "\<bar>x\<bar> * (1 - 1 / 10 ^ 10) \<le> \<bar>rnd M x\<bar>" "\<bar>rnd M x\<bar> \<le> \<bar>x\<bar> * (1 + 1 / 10 ^ 10)"
    by (simp_all add: algebra_simps)
  have "l * (1 - 1 / 10 ^ 10) \<le> \<bar>x\<bar> * (1 - 1 / 10 ^ 10)"
    using iv by (intro mult_right_mono) simp_all
  moreover have "\<bar>x\<bar> * (1 + 1 / 10 ^ 10) \<le> h * (1 + 1 / 10 ^ 10)"
    using iv by (intro mult_right_mono) simp_all
  ultimately show ?thesis
    using n w by linarith
qed

lemma rnd_const_in:
  assumes acc: "accurate (1 / 10 ^ 10) M"
    and r: "1 / 10 ^ 30 \<le> \<bar>c\<bar>" "\<bar>c\<bar> \<le> 10 ^ 30"
    and w: "l' \<le> c - \<bar>c\<bar> / 10 ^ 10" "c + \<bar>c\<bar> / 10 ^ 10 \<le> h'"
  shows "l' \<le> rnd M c \<and> rnd M c \<le> h'"
proof -
  from acc r have "\<bar>rnd M c - c\<bar> \<le> 1 / 10 ^ 10 * \<bar>c\<bar>"
    unfolding accurate_def by blast
  then have "c - 1 / 10 ^ 10 * \<bar>c\<bar> \<le> rnd M c \<and> rnd M c \<le> c + 1 / 10 ^ 10 * \<bar>c\<bar>"
    by (rule abs_le_D)
  then have "c - \<bar>c\<bar> / 10 ^ 10 \<le> rnd M c" "rnd M c \<le> c + \<bar>c\<bar> / 10 ^ 10"
    by simp_all
  with w show ?thesis
    by linarith
qed

lemma pi_in:
  assumes acc: "accurate (1 / 10 ^ 10) M"
  shows "157 / 50 \<le> Math_PI M \<and> Math_PI M \<le> 319 / 100"
proof -
  from acc have "\<bar>Math_PI M - pi\<bar> \<le> 1 / 10 ^ 10"
    unfolding accurate_def by blast
  then have "pi - 1 / 10 ^ 10 \<le> Math_PI M \<and> Math_PI M \<le> pi + 1 / 10 ^ 10"
    by (rule abs_le_D)
  then show ?thesis
    using pi_bounds by simp
qed

lemma fl_sub_in:
  assumes acc: "accurate (1 / 10 ^ 10) M"
    and x: "l1 \<le> x \<and> x \<le> h1" and y: "l2 \<le> y \<and> y \<le> h2"
    and r: "1 / 10 ^ 30 \<le> l1 - h2" "h1 - l2 \<le> 10 ^ 30"
    and w: "l' \<le> (l1 - h2) * (1 - 1 / 10 ^ 10)" "(h1 - l2) * (1 + 1 / 10 ^ 10) \<le> h'"
  shows "l' \<le> fl_sub M x y \<and> fl_sub M x y \<le> h'"
proof -
  have "l1 - h2 \<le> x - y \<and> x - y \<le> h1 - l2"
    using x y by linarith
  then show ?thesis
    unfolding fl_sub_def using r w by (rule rnd_in [OF acc])
qed

lemma fl_sub1_in:
  assumes acc: "accurate (1 / 10 ^ 10) M"
    and y: "l2 \<le> y \<and> y \<le> h2"
    and r: "1 / 10 ^ 30 \<le> 1 - h2" "1 - l2 \<le> 10 ^ 30"
    and w: "l' \<le> (1 - h2) * (1 - 1 / 10 ^ 10)" "(1 - l2) * (1 + 1 / 10 ^ 10) \<le> h'"
  shows "l' \<le> fl_sub M 1 y \<and> fl_sub M 1 y \<le> h'"
proof -
  have "(1::real) \<le> 1 \<and> (1::real) \<le> 1"
    by simp
  then show ?thesis
    using y r w by (rule fl_sub_in [OF acc])
qed

lemma fl_add_in:
  assumes acc: "accurate (1 / 10 ^ 10) M"
    and x: "l1 \<le> x \<and> x \<le> h1" and y: "l2 \<le> y \<and> y \<le> h2"
    and r: "1 / 10 ^ 30 \<le> l1 + l2" "h1 + h2 \<le> 10 ^ 30"
    and w: "l' \<le> (l1 + l2) * (1 - 1 / 10 ^ 10)" "(h1 + h2) * (1 + 1 / 10 ^ 10) \<le> h'"
  shows "l' \<le> fl_add M x y \<and> fl_add M x y \<le> h'"
proof -
  have "l1 + l2 \<le> x + y \<and> x + y \<le> h1 + h2"
    using x y by linarith
  then show ?thesis
    unfolding fl_add_def using r w by (rule rnd_in [OF acc])
qed

lemma mult_in:
  fixes x y :: real
  assumes x: "l1 \<le> x \<and> x \<le> h1" and y: "l2 \<le> y \<and> y \<le> h2" and p: "0 \<le> l1" "0 \<le> l2"
  shows "l1 * l2 \<le> x * y \<and> x * y \<le> h1 * h2"
proof
  show "l1 * l2 \<le> x * y"
    using x y p by (intro mult_mono) simp_all
  show "x * y \<le> h1 * h2"
    using x y p by (intro mult_mono) simp_all
qed

lemma fl_mul_in:
  assumes acc: "accurate (1 / 10 ^ 10) M"
    and x: "l1 \<le> x \<and> x \<le> h1" and y: "l2 \<le> y \<and> y \<le> h2"
    and p: "0 \<le> l1" "0 \<le> l2"
    and r: "1 / 10 ^ 30 \<le> l1 * l2" "h1 * h2 \<le> 10 ^ 30"
    and w: "l' \<le> l1 * l2 * (1 - 1 / 10 ^ 10)" "h1 * h2 * (1 + 1 / 10 ^ 10) \<le> h'"
  shows "l' \<le> fl_mul M x y \<and> fl_mul M x y \<le> h'"
proof -
  have "l1 * l2 \<le> x * y \<and> x * y \<le> h1 * h2"
    using x y p by (rule mult_in)
  then show ?thesis
    unfolding fl_mul_def using r w by (rule rnd_in [OF acc])
qed

lemma fl_mulc_in:
  assumes acc: "accurate (1 / 10 ^ 10) M"
    and y: "l2 \<le> y \<and> y \<le> h2"
    and p: "0 \<le> k" "0 \<le> l2"
    and r: "1 / 10 ^ 30 \<le> k * l2" "k * h2 \<le> 10 ^ 30"
    and w: "l' \<le> k * l2 * (1 - 1 / 10 ^ 10)" "k * h2 * (1 + 1 / 10 ^ 10) \<le> h'"
  shows "l' \<le> fl_mul M k y \<and> fl_mul M k y \<le> h'"
proof -
  have "k \<le> k \<and> k \<le> k"
    by simp
  then show ?thesis
    using y p r w by (rule fl_mul_in [OF acc])
qed

lemma fl_mul_abs_in:
  assumes acc: "accurate (1 / 10 ^ 10) M"
    and x: "l1 \<le> \<bar>x\<bar> \<and> \<bar>x\<bar> \<le> h1" and y: "l2 \<le> y \<and> y \<le> h2"
    and p: "0 \<le> l1" "0 \<le> l2"
    and r: "1 / 10 ^ 30 \<le> l1 * l2" "h1 * h2 \<le> 10 ^ 30"
    and w: "l' \<le> l1 * l2 * (1 - 1 / 10 ^ 10)" "h1 * h2 * (1 + 1 / 10 ^ 10) \<le> h'"
  shows "l' \<le> \<bar>fl_mul M x y\<bar> \<and> \<bar>fl_mul M x y\<bar> \<le> h'"
proof -
  have "0 \<le> y"
    using y p by linarith
  then have e: "\<bar>x * y\<bar> = \<bar>x\<bar> * y"
    by (simp add: abs_mult)
  have "l1 * l2 \<le> \<bar>x * y\<bar> \<and> \<bar>x * y\<bar> \<le> h1 * h2"
    unfolding e using x y p by (rule mult_in)
  then show ?thesis
    unfolding fl_mul_def using r w by (rule rnd_abs_in [OF acc])
qed

lemma fl_div_in:
  assumes acc: "accurate (1 / 10 ^ 10) M"
    and x: "l \<le> x \<and> x \<le> h" and k: "0 < k"
    and r: "1 / 10 ^ 30 \<le> l / k" "h / k \<le> 10 ^ 30"
    and w: "l' \<le> l / k * (1 - 1 / 10 ^ 10)" "h / k * (1 + 1 / 10 ^ 10) \<le> h'"
  shows "l' \<le> fl_div M x k \<and> fl_div M x k \<le> h'"
proof -
  have "l / k \<le> x / k \<and> x / k \<le> h / k"
    using x k by (simp add: divide_right_mono)
  then show ?thesis
    unfolding fl_div_def using r w by (rule rnd_in [OF acc])
qed

lemma fl_div_abs_in:
  assumes acc: "accurate (1 / 10 ^ 10) M"
    and x: "l \<le> \<bar>x\<bar> \<and> \<bar>x\<bar> \<le> h" and k: "0 < k"
    and r: "1 / 10 ^ 30 \<le> l / k" "h / k \<le> 10 ^ 30"
    and w: "l' \<le> l / k * (1 - 1 / 10 ^ 10)" "h / k * (1 + 1 / 10 ^ 10) \<le> h'"
  shows "l' \<le> \<bar>fl_div M x k\<bar> \<and> \<bar>fl_div M x k\<bar> \<le> h'"
proof -
  have e: "\<bar>x / k\<bar> = \<bar>x\<bar> / k"
    using k by (simp add: abs_of_pos)
  have "l / k \<le> \<bar>x / k\<bar> \<and> \<bar>x / k\<bar> \<le> h / k"
    unfolding e using x k by (simp add: divide_right_mono)
  then show ?thesis
    unfolding fl_div_def using r w by (rule rnd_abs_in [OF acc])
qed

lemma sin_in:
  assumes acc: "accurate (1 / 10 ^ 10) M"
    and x: "l \<le> x \<and> x \<le> h" and p: "0 \<le> l"
    and w: "l' \<le> l - h ^ 3 / 6 - 1 / 10 ^ 10" "h + 1 / 10 ^ 10 \<le> h'"
  shows "l' \<le> Math_sin M x \<and> Math_sin M x \<le> h'"
proof -
  from acc have "\<bar>Math_sin M x - sin x\<bar> \<le> 1 / 10 ^ 10"
    unfolding accurate_def by blast
  then have "sin x - 1 / 10 ^ 10 \<le> Math_sin M x \<and> Math_sin M x \<le> sin x + 1 / 10 ^ 10"
    by (rule abs_le_D)
  then have n: "sin x - 1 / 10 ^ 10 \<le> Math_sin M x" "Math_sin M x \<le> sin x + 1 / 10 ^ 10"
    by blast+
  have x0: "0 \<le> x"
    using x p by linarith
  have "x ^ 3 \<le> h ^ 3"
    using x x0 by (intro power_mono) simp_all
  moreover have "x - x ^ 3 / 6 \<le> sin x"
    using x0 by (rule sin_lower)
  moreover have "sin x \<le> x"
    using x0 by (rule sin_x_le_x)
  ultimately show ?thesis
    using n x w by linarith
qed

lemma cos_in:
  assumes acc: "accurate (1 / 10 ^ 10) M"
    and y: "l \<le> \<bar>y\<bar> \<and> \<bar>y\<bar> \<le> h"
    and w: "l' \<le> 1 - h\<^sup>2 / 2 - 1 / 10 ^ 10" "1 + 1 / 10 ^ 10 \<le> h'"
  shows "l' \<le> Math_cos M y \<and> Math_cos M y \<le> h'"
proof -
  from acc have "\<bar>Math_cos M y - cos y\<bar> \<le> 1 / 10 ^ 10"
    unfolding accurate_def by blast
  then have "cos y - 1 / 10 ^ 10 \<le> Math_cos M y \<and> Math_cos M y \<le> cos y + 1 / 10 ^ 10"
    by (rule abs_le_D)
  then have n: "cos y - 1 / 10 ^ 10 \<le> Math_cos M y" "Math_cos M y \<le> cos y + 1 / 10 ^ 10"
    by blast+
  have "\<bar>y\<bar>\<^sup>2 \<le> h\<^sup>2"
    using y by (intro power_mono) simp_all
  then have "y\<^sup>2 \<le> h\<^sup>2"
    by simp
  moreover have "1 - y\<^sup>2 / 2 \<le> cos y"
    by (rule cos_lower)
  moreover have "cos y \<le> 1"
    by simp
  ultimately show ?thesis
    using n w by linarith
qed

lemma sqrt_in:
  assumes acc: "accurate (1 / 10 ^ 10) M"
    and x: "l \<le> x \<and> x \<le> h"
    and s: "0 \<le> sl" "sl\<^sup>2 \<le> l" "h \<le> sh\<^sup>2" "0 \<le> sh"
    and w: "l' \<le> sl * (1 - 1 / 10 ^ 10)" "sh * (1 + 1 / 10 ^ 10) \<le> h'"
  shows "l' \<le> Math_sqrt M x \<and> Math_sqrt M x \<le> h'"
proof -
  have "0 \<le> sl\<^sup>2"
    by simp
  with s x have x0: "0 \<le> x"
    by linarith
  with acc have "\<bar>Math_sqrt M x - sqrt x\<bar> \<le> 1 / 10 ^ 10 * sqrt x"
    unfolding accurate_def by blast
  then have "sqrt x - 1 / 10 ^ 10 * sqrt x \<le> Math_sqrt M x \<and>
      Math_sqrt M x \<le> sqrt x + 1 / 10 ^ 10 * sqrt x"
    by (rule abs_le_D)
  then have n: "sqrt x * (1 - 1 / 10 ^ 10) \<le> Math_sqrt M x"
      "Math_sqrt M x \<le> sqrt x * (1 + 1 / 10 ^ 10)"
    by (simp_all add: algebra_simps)
  have "sl\<^sup>2 \<le> x"
    using s x by linarith
  then have l: "sl \<le> sqrt x"
    by (rule real_le_rsqrt)
  have "x \<le> sh\<^sup>2"
    using s x by linarith
  with s(4) have h: "sqrt x \<le> sh"
    by (intro real_le_lsqrt) simp_all
  have "sl * (1 - 1 / 10 ^ 10) \<le> sqrt x * (1 - 1 / 10 ^ 10)"
    using l by (intro mult_right_mono) simp_all
  moreover have "sqrt x * (1 + 1 / 10 ^ 10) \<le> sh * (1 + 1 / 10 ^ 10)"
    using h by (intro mult_right_mono) simp_all
  ultimately show ?thesis
    using n w by linarith
qed

lemma atan2_in:
  assumes acc: "accurate (1 / 10 ^ 10) M"
    and y: "yl \<le> y \<and> y \<le> yh" and x: "xl \<le> x \<and> x \<le> xh"
    and p: "0 < xl" "0 \<le> yl" "0 \<le> tlo"
    and t: "tlo * xh \<le> yl" "yh \<le> thi * xl"
    and w: "l' \<le> tlo - tlo ^ 3 / 3 - 1 / 10 ^ 10" "thi + 1 / 10 ^ 10 \<le> h'"
  shows "l' \<le> Math_atan2 M y x \<and> Math_atan2 M y x \<le> h'"
proof -
  from acc have "\<bar>Math_atan2 M y x - atan2 y x\<bar> \<le> 1 / 10 ^ 10"
    unfolding accurate_def by blast
  then have "atan2 y x - 1 / 10 ^ 10 \<le> Math_atan2 M y x \<and> Math_atan2 M y x \<le> atan2 y x + 1 / 10 ^ 10"
    by (rule abs_le_D)
  then have n: "atan2 y x - 1 / 10 ^ 10 \<le> Math_atan2 M y x" "Math_atan2 M y x \<le> atan2 y x + 1 / 10 ^ 10"
    by blast+
  have x0: "0 < x"
    using x p by linarith
  then have e: "atan2 y x = arctan (y / x)"
    by (simp add: atan2_def)
  have "tlo * x \<le> tlo * xh"
    using x p by (intro mult_left_mono) simp_all
  then have "tlo * x \<le> y"
    using t y by linarith
  then have tlb: "tlo \<le> y / x"
    using x0 by (simp add: pos_le_divide_eq)
  have th0: "0 \<le> thi"
  proof (rule ccontr)
    assume "\<not> 0 \<le> thi"
    then have "thi * xl < 0"
      using p by (simp add: mult_less_0_iff)
    with t y p show False
      by linarith
  qed
  have "thi * xl \<le> thi * x"
    using x th0 by (intro mult_left_mono) simp_all
  then have "y \<le> thi * x"
    using t y by linarith
  then have thb: "y / x \<le> thi"
    using x0 by (simp add: pos_divide_le_eq)
  have "arctan tlo \<le> arctan (y / x)"
    using tlb by (rule arctan_monotone')
  moreover have "tlo - tlo ^ 3 / 3 \<le> arctan tlo"
    using p(3) by (rule arctan_lower)
  moreover have "arctan (y / x) \<le> y / x"
    using tlb p(3) by (intro arctan_le_self) linarith
  ultimately show ?thesis
    using n w thb unfolding e by linarith
qed

section \<open>The distance of the scenario\<close>

text \<open>
  The computation of the scenario, one operation after the other, with an interval for
  every intermediate value.
\<close>

lemma scenario_distance:
  assumes acc: "accurate (1 / 10 ^ 10) M"
  shows "\<exists>d. calculateDistance_km M (rnd M (- 1.30)) (rnd M 36.80) (rnd M (- 1.29)) (rnd M 36.82)
           = Some d \<and> 2.48 \<le> d \<and> d \<le> 2.53"
proof -
  define L1 where "L1 = rnd M (- (13 / 10))"
  define L2 where "L2 = rnd M (- (129 / 100))"
  define G1 where "G1 = rnd M (184 / 5)"
  define G2 where "G2 = rnd M (1841 / 50)"
  define P where "P = Math_PI M"
  define u1 where "u1 = fl_sub M L2 L1"
  define m1 where "m1 = fl_mul M u1 P"
  define dLat where "dLat = fl_div M m1 180"
  define x1 where "x1 = fl_div M dLat 2"
  define s1 where "s1 = Math_sin M x1"
  define q1 where "q1 = fl_mul M s1 s1"
  define u2 where "u2 = fl_sub M G2 G1"
  define m2 where "m2 = fl_mul M u2 P"
  define dLon where "dLon = fl_div M m2 180"
  define x2 where "x2 = fl_div M dLon 2"
  define s2 where "s2 = Math_sin M x2"
  define n1 where "n1 = fl_mul M L1 P"
  define y1 where "y1 = fl_div M n1 180"
  define c1 where "c1 = Math_cos M y1"
  define n2 where "n2 = fl_mul M L2 P"
  define y2 where "y2 = fl_div M n2 180"
  define c2 where "c2 = Math_cos M y2"
  define cc where "cc = fl_mul M c1 c2"
  define r1 where "r1 = fl_mul M cc s2"
  define r2 where "r2 = fl_mul M r1 s2"
  define a where "a = fl_add M q1 r2"
  define sa where "sa = Math_sqrt M a"
  define b where "b = fl_sub M 1 a"
  define sb where "sb = Math_sqrt M b"
  define ang where "ang = Math_atan2 M sa sb"
  define c where "c = fl_mul M 2 ang"
  define d where "d = fl_mul M 6371 c"
  have L1_iv: "- (130000001 / 100000000) \<le> L1 \<and> L1 \<le> - (129999999 / 100000000)"
    unfolding L1_def by (rule rnd_const_in [OF acc]) simp_all
  have L2_iv: "- (129000001 / 100000000) \<le> L2 \<and> L2 \<le> - (128999999 / 100000000)"
    unfolding L2_def by (rule rnd_const_in [OF acc]) simp_all
  have G1_iv: "367999999 / 10000000 \<le> G1 \<and> G1 \<le> 368000001 / 10000000"
    unfolding G1_def by (rule rnd_const_in [OF acc]) simp_all
  have G2_iv: "368199999 / 10000000 \<le> G2 \<and> G2 \<le> 368200001 / 10000000"
    unfolding G2_def by (rule rnd_const_in [OF acc]) simp_all
  have P_iv: "157 / 50 \<le> P \<and> P \<le> 319 / 100"
    unfolding P_def by (rule pi_in [OF acc])
  have u1_iv: "999997 / 100000000 \<le> u1 \<and> u1 \<le> 100001 / 10000000"
    unfolding u1_def by (rule fl_sub_in [OF acc L2_iv L1_iv]) simp_all
  have m1_iv: "313999 / 10000000 \<le> m1 \<and> m1 \<le> 79751 / 2500000"
    unfolding m1_def by (rule fl_mul_in [OF acc u1_iv P_iv]) simp_all
  have dLat_iv: "174443 / 1000000000 \<le> dLat \<and> dLat \<le> 7089 / 40000000"
    unfolding dLat_def by (rule fl_div_in [OF acc m1_iv]) simp_all
  have x1_iv: "436107 / 5000000000 \<le> x1 \<and> x1 \<le> 443063 / 5000000000"
    unfolding x1_def by (rule fl_div_in [OF acc dLat_iv]) simp_all
  have s1_iv: "4361 / 50000000 \<le> s1 \<and> s1 \<le> 4431 / 50000000"
    unfolding s1_def by (rule sin_in [OF acc x1_iv]) (simp_all add: power3_eq_cube)
  have q1_iv: "7607 / 1000000000000 \<le> q1 \<and> q1 \<le> 3927 / 500000000000"
    unfolding q1_def by (rule fl_mul_in [OF acc s1_iv s1_iv]) simp_all
  have u2_iv: "199997 / 10000000 \<le> u2 \<and> u2 \<le> 200003 / 10000000"
    unfolding u2_def by (rule fl_sub_in [OF acc G2_iv G1_iv]) simp_all
  have m2_iv: "62799 / 1000000 \<le> m2 \<and> m2 \<le> 63801 / 1000000"
    unfolding m2_def by (rule fl_mul_in [OF acc u2_iv P_iv]) simp_all
  have dLon_iv: "348883 / 1000000000 \<le> dLon \<and> dLon \<le> 354451 / 1000000000"
    unfolding dLon_def by (rule fl_div_in [OF acc m2_iv]) simp_all
  have x2_iv: "174441 / 1000000000 \<le> x2 \<and> x2 \<le> 88613 / 500000000"
    unfolding x2_def by (rule fl_div_in [OF acc dLon_iv]) simp_all
  have s2_iv: "4361 / 25000000 \<le> s2 \<and> s2 \<le> 17723 / 100000000"
    unfolding s2_def by (rule sin_in [OF acc x2_iv]) (simp_all add: power3_eq_cube)
  have L1_abs: "129999999 / 100000000 \<le> \<bar>L1\<bar> \<and> \<bar>L1\<bar> \<le> 130000001 / 100000000"
    using L1_iv by simp
  have n1_abs: "4081 / 1000 \<le> \<bar>n1\<bar> \<and> \<bar>n1\<bar> \<le> 1037 / 250"
    unfolding n1_def by (rule fl_mul_abs_in [OF acc L1_abs P_iv]) simp_all
  have y1_abs: "2267 / 100000 \<le> \<bar>y1\<bar> \<and> \<bar>y1\<bar> \<le> 461 / 20000"
    unfolding y1_def by (rule fl_div_abs_in [OF acc n1_abs]) simp_all
  have c1_iv: "9997 / 10000 \<le> c1 \<and> c1 \<le> 10000001 / 10000000"
    unfolding c1_def by (rule cos_in [OF acc y1_abs]) (simp_all add: power2_eq_square)
  have L2_abs: "128999999 / 100000000 \<le> \<bar>L2\<bar> \<and> \<bar>L2\<bar> \<le> 129000001 / 100000000"
    using L2_iv by simp
  have n2_abs: "81 / 20 \<le> \<bar>n2\<bar> \<and> \<bar>n2\<bar> \<le> 1029 / 250"
    unfolding n2_def by (rule fl_mul_abs_in [OF acc L2_abs P_iv]) simp_all
  have y2_abs: "2249 / 100000 \<le> \<bar>y2\<bar> \<and> \<bar>y2\<bar> \<le> 2287 / 100000"
    unfolding y2_def by (rule fl_div_abs_in [OF acc n2_abs]) simp_all
  have c2_iv: "9997 / 10000 \<le> c2 \<and> c2 \<le> 10000001 / 10000000"
    unfolding c2_def by (rule cos_in [OF acc y2_abs]) (simp_all add: power2_eq_square)
  have cc_iv: "4997 / 5000 \<le> cc \<and> cc \<le> 1001 / 1000"
    unfolding cc_def by (rule fl_mul_in [OF acc c1_iv c2_iv]) simp_all
  have r1_iv: "17433 / 100000000 \<le> r1 \<and> r1 \<le> 17741 / 100000000"
    unfolding r1_def by (rule fl_mul_in [OF acc cc_iv s2_iv]) simp_all
  have r2_iv: "3041 / 100000000000 \<le> r2 \<and> r2 \<le> 31443 / 1000000000000"
    unfolding r2_def by (rule fl_mul_in [OF acc r1_iv s2_iv]) simp_all
  have a_iv: "3801 / 100000000000 \<le> a \<and> a \<le> 393 / 10000000000"
    unfolding a_def by (rule fl_add_in [OF acc q1_iv r2_iv]) simp_all
  have sa_iv: "3899 / 20000000 \<le> sa \<and> sa \<le> 9913 / 50000000"
    unfolding sa_def by (rule sqrt_in [OF acc a_iv, where sl = "2437 / 12500000" and sh = "793 / 4000000"]) (simp_all add: power2_eq_square)
  have b_iv: "999999 / 1000000 \<le> b \<and> b \<le> 1"
    unfolding b_def by (rule fl_sub1_in [OF acc a_iv]) simp_all
  have sb_iv: "999997 / 1000000 \<le> sb \<and> sb \<le> 50001 / 50000"
    unfolding sb_def by (rule sqrt_in [OF acc b_iv, where sl = "499999 / 500000" and sh = "100001 / 100000"]) (simp_all add: power2_eq_square)
  have ang_iv: "19493 / 100000000 \<le> ang \<and> ang \<le> 4957 / 25000000"
    unfolding ang_def by (rule atan2_in [OF acc sa_iv sb_iv, where tlo = "9747 / 50000000" and thi = "19827 / 100000000"]) (simp_all add: power3_eq_cube)
  have c_iv: "7797 / 20000000 \<le> c \<and> c \<le> 39657 / 100000000"
    unfolding c_def by (rule fl_mulc_in [OF acc ang_iv]) simp_all
  have d_iv: "62 / 25 \<le> d \<and> d \<le> 253 / 100"
    unfolding d_def by (rule fl_mulc_in [OF acc c_iv]) simp_all

  have inputs: "(- 1.30 :: real) = - (13 / 10)" "(36.80 :: real) = 184 / 5"
      "(- 1.29 :: real) = - (129 / 100)" "(36.82 :: real) = 1841 / 50"
    by simp_all
  have ha: "haversine_a M L1 G1 L2 G2 = a"
    unfolding haversine_a_def Let_def a_def r2_def r1_def cc_def c2_def y2_def n2_def c1_def
      y1_def n1_def s2_def x2_def dLon_def m2_def u2_def q1_def s1_def x1_def dLat_def m1_def
      u1_def P_def ..
  have a0: "\<not> a < 0" and b0: "\<not> b < 0"
    using a_iv b_iv by simp_all
  have "calculateDistance_km M L1 G1 L2 G2 = Some d"
    unfolding calculateDistance_km_def Let_def ha js_sqrt_def b_def [symmetric]
    using a0 b0 by (simp add: d_def c_def ang_def sa_def sb_def)
  then have "calculateDistance_km M (rnd M (- 1.30)) (rnd M 36.80) (rnd M (- 1.29))
      (rnd M 36.82) = Some d"
    unfolding inputs L1_def G1_def L2_def G2_def .
  moreover have "2.48 \<le> d \<and> d \<le> 2.53"
    using d_iv by simp
  ultimately show ?thesis
    by blast
qed

lemma toFixed1_scenario: "2.48 \<le> d \<Longrightarrow> d \<le> 2.53 \<Longrightarrow> toFixed1 d = 25"
proof -
  assume b: "2.48 \<le> d" "d \<le> 2.53"
  then have "\<lfloor>d * 10 + 1 / 2\<rfloor> = 25"
    by (intro floor_unique) simp_all
  moreover have "\<not> d < 0"
    using b by simp
  ultimately show ?thesis
    unfolding toFixed1_def by simp
qed

lemma scenario_relevant:
  assumes "calculateDistance_km M (rnd M (- 1.30)) (rnd M 36.80) (rnd M (- 1.29)) (rnd M 36.82)
      = Some d" and "d \<le> 10"
  shows "relevant_set M flag (scenario_alert M) [scenario_subscriber M] = [scenario_subscriber M]"
  using assms
  by (simp add: relevant_set_def relevant_def within_radius_def scenario_alert_def
      scenario_subscriber_def)

lemma accurate_sin_high: "accurate (1 / 10 ^ 10) sin_high_arith"
  by (simp add: accurate_def sin_high_arith_def exact_arith_def)

lemma rounding_can_give_NaN: "calculateDistance sin_high_arith 0 0 0 180 = None"
proof -
  have "haversine_a sin_high_arith 0 0 0 180 =
      (1 / 10 ^ 11) * (1 / 10 ^ 11) + (1 + 1 / 10 ^ 11) * (1 + 1 / 10 ^ 11)"
    by (simp add: haversine_a_def sin_high_arith_def exact_arith_def fl_add_def fl_sub_def
        fl_mul_def fl_div_def Let_def)
  then have "1 < haversine_a sin_high_arith 0 0 0 180"
    by simp
  then show ?thesis
    by (simp add: calculateDistance_def calculateDistance_km_def Let_def js_sqrt_def fl_sub_def
        sin_high_arith_def exact_arith_def)
qed

section \<open>The claim about the distance\<close>

text \<open>
  Claim C8, as amended. The claim says that the distance computation is the haversine
  formula with Earth radius 6371 km and that, for a subscriber at (-1.30, 36.80) and an
  alert at (-1.29, 36.82), it yields about 2.3 km, which is within the radius of 10 km,
  so that the subscriber is in the relevant set. The figure is 2.5: the computation is
  the haversine formula with radius 6371; in every arithmetic accurate to ten decimal
  places the distance of the scenario lies between 2.48 km and 2.53 km and is shown as
  2.5; that is within the radius of 10 km, so the relevance filter of the specification
  includes the subscriber.
\<close>

theorem haversine_scenario:
  "accurate (1 / 10 ^ 10) M \<Longrightarrow>
   calculateDistance_km exact_arith lat1 lon1 lat2 lon2 =
     Some (haversine_formula 6371 lat1 lon1 lat2 lon2) \<and>
   (\<exists>d. calculateDistance_km M (rnd M (- 1.30)) (rnd M 36.80) (rnd M (- 1.29)) (rnd M 36.82)
          = Some d \<and> 2.48 \<le> d \<and> d \<le> 2.53) \<and>
   calculateDistance M (rnd M (- 1.30)) (rnd M 36.80) (rnd M (- 1.29)) (rnd M 36.82) = Some 25 \<and>
   relevant_set M include_unlocated (scenario_alert M) [scenario_subscriber M] =
     [scenario_subscriber M]"
proof -
  assume acc: "accurate (1 / 10 ^ 10) M"
  then obtain d where d: "calculateDistance_km M (rnd M (- 1.30)) (rnd M 36.80)
      (rnd M (- 1.29)) (rnd M 36.82) = Some d" and b: "2.48 \<le> d" "d \<le> 2.53"
    using scenario_distance by blast
  have t: "calculateDistance M (rnd M (- 1.30)) (rnd M 36.80) (rnd M (- 1.29)) (rnd M 36.82)
      = Some 25"
    unfolding calculateDistance_def d using b by (simp add: toFixed1_scenario)
  have "d \<le> 10"
    using b by simp
  with d have r: "relevant_set M include_unlocated (scenario_alert M) [scenario_subscriber M] =
      [scenario_subscriber M]"
    by (rule scenario_relevant)
  show ?thesis
    using d b t r calculateDistance_km_exact by blast
qed

theorem haversine_scenario_witness:
  "accurate (1 / 10 ^ 10) skewed_arith \<and>
   calculateDistance_km exact_arith (- 1.30) 36.80 (- 1.29) 36.82 =
     Some (haversine_formula 6371 (- 1.30) 36.80 (- 1.29) 36.82) \<and>
   calculateDistance skewed_arith (rnd skewed_arith (- 1.30)) (rnd skewed_arith 36.80)
     (rnd skewed_arith (- 1.29)) (rnd skewed_arith 36.82) = Some 25 \<and>
   relevant_set skewed_arith False (scenario_alert skewed_arith)
     [scenario_subscriber skewed_arith] = [scenario_subscriber skewed_arith]"
  using accurate_skewed haversine_scenario [OF accurate_skewed] by blast

text \<open>
  Claim C8 as stated fails in its figure: the distance of the scenario is shown as 2.5,
  not as 2.3.
\<close>

theorem haversine_scenario_counterexample:
  "calculateDistance exact_arith (- 1.30) 36.80 (- 1.29) 36.82 = Some 25 \<and>
   calculateDistance exact_arith (- 1.30) 36.80 (- 1.29) 36.82 \<noteq> Some 23"
proof -
  have acc: "accurate (1 / 10 ^ 10) exact_arith"
    by (rule accurate_exact) simp
  obtain d where d: "calculateDistance_km exact_arith (rnd exact_arith (- 1.30))
      (rnd exact_arith 36.80) (rnd exact_arith (- 1.29)) (rnd exact_arith 36.82) = Some d"
    and b: "2.48 \<le> d" "d \<le> 2.53"
    using scenario_distance [OF acc] by blast
  have e: "rnd exact_arith = (\<lambda>x. x)"
    by (simp add: exact_arith_def)
  have "calculateDistance exact_arith (- 1.30) 36.80 (- 1.29) 36.82 = Some 25"
    unfolding calculateDistance_def using d [unfolded e] b by (simp add: toFixed1_scenario)
  then show ?thesis
    by simp
qed

end
